theory Spec2Isabelle
  imports Main "HOL-Library.Word"
begin

section \<open>privexctl: a shallow embedding of \<^verbatim>\<open>src/tools/privexctl.c\<close>\<close>

text \<open>
  The program keeps three process-wide variables (\<^verbatim>\<open>privex_sockfd\<close>,
  \<^verbatim>\<open>privex_port\<close>, \<^verbatim>\<open>privex_epollfd\<close>) and talks to the operating system
  through system calls. The embedding passes one explicit \<open>world\<close> value through every
  function: the three variables, the answers the operating system will give to the calls
  still to come, the standard input still unread, and the trace of calls made so far.
\<close>

subsection \<open>Constants of the C library\<close>

definition EXIT_SUCCESS :: int where
  "EXIT_SUCCESS = 0"

definition EXIT_FAILURE :: int where
  "EXIT_FAILURE = 1"

definition AF_INET :: nat where
  "AF_INET = 2"

text \<open>The event classes of \<^verbatim>\<open>sys/epoll.h\<close> the program registers for.\<close>

datatype epoll_events = EPOLLIN | EPOLLOUT

subsection \<open>Socket addresses\<close>

text \<open>
  \<^verbatim>\<open>htons\<close> and \<^verbatim>\<open>htonl\<close> produce values in network byte order. Their results are
  kept as the bytes that lie in memory, most significant first, which is what they are on
  every host.
\<close>

type_synonym byte = "8 word"

definition htons :: "16 word \<Rightarrow> byte list" where
  "htons x = [ucast (drop_bit 8 x), ucast x]"

definition htonl :: "32 word \<Rightarrow> byte list" where
  "htonl x = [ucast (drop_bit 24 x), ucast (drop_bit 16 x), ucast (drop_bit 8 x), ucast x]"

definition INADDR_LOOPBACK :: "32 word" where
  "INADDR_LOOPBACK = 0x7F000001"

record sockaddr_in =
  sin_family :: nat
  sin_port :: "byte list"
  sin_addr :: "byte list"

text \<open>The cast \<^verbatim>\<open>(uint16_t) privex_port\<close> of a C \<^verbatim>\<open>int\<close>: reduction modulo \<open>2 ^ 16\<close>.\<close>

definition uint16_cast :: "int \<Rightarrow> 16 word" where
  "uint16_cast p = word_of_int p"

subsection \<open>The world: program variables and operating system\<close>

datatype syscall =
  SOCKET | INET_PTON | CONNECT | BIND | LISTEN | EPOLL_CREATE | EPOLL_CTL | EPOLL_WAIT
  | WRITE | READ | FWRITE

text \<open>
  One entry of the trace per call that reaches the operating system or a standard stream.
  \<open>EvWrite fd bs\<close>: a \<^verbatim>\<open>write\<close> on \<open>fd\<close> of which the kernel accepted the bytes \<open>bs\<close>
  (none when the call failed). \<open>EvStdout bs\<close>: the bytes standard output accepted from
  one \<^verbatim>\<open>fwrite\<close>. \<open>EvStderr m\<close>: one \<^verbatim>\<open>fprintf(stderr, ...)\<close> with format string \<open>m\<close>
  (without its final newline; the text of \<^verbatim>\<open>strerror(errno)\<close> is not modelled).
\<close>

datatype event =
    EvSocket
  | EvInetPton string
  | EvConnect int sockaddr_in
  | EvBind int sockaddr_in
  | EvListen int int
  | EvEpollCreate
  | EvEpollCtl int int epoll_events
  | EvEpollWait int
  | EvWrite int string
  | EvRead int
  | EvClose int
  | EvStdout string
  | EvStderr string

text \<open>How standard input ends once its lines are used up.\<close>

datatype stdin_end = EndOfFile | ReadError

text \<open>
  \<open>answers w k i\<close> is the raw answer of the operating system to the \<open>i\<close>-th call of kind
  \<open>k\<close> still to come; \<open>incoming w i\<close> the bytes the peer has made available to the \<open>i\<close>-th
  \<^verbatim>\<open>read\<close> still to come. \<open>stdin_indicator\<close> is the end-of-file or error indicator of
  the \<^verbatim>\<open>stdin\<close> stream (\<open>None\<close> while neither is set).
\<close>

record world =
  privex_sockfd :: int
  privex_port :: int
  privex_epollfd :: int
  answers :: "syscall \<Rightarrow> nat \<Rightarrow> int"
  incoming :: "nat \<Rightarrow> string"
  stdin_lines :: "string list"
  stdin_end :: stdin_end
  stdin_indicator :: "stdin_end option"
  trace :: "event list"

text \<open>The state of a fresh process (lines 24 to 26 of the source).\<close>

definition init_world ::
    "(syscall \<Rightarrow> nat \<Rightarrow> int) \<Rightarrow> (nat \<Rightarrow> string) \<Rightarrow> string list \<Rightarrow> stdin_end \<Rightarrow> world" where
  "init_world K R ls e =
     \<lparr>privex_sockfd = -1, privex_port = -1, privex_epollfd = -1,
      answers = K, incoming = R, stdin_lines = ls, stdin_end = e,
      stdin_indicator = None, trace = []\<rparr>"

definition answer :: "syscall \<Rightarrow> world \<Rightarrow> int" where
  "answer k w = answers w k 0"

definition consume :: "syscall \<Rightarrow> world \<Rightarrow> world" where
  "consume k w = w\<lparr>answers := (answers w)(k := \<lambda>i. answers w k (Suc i))\<rparr>"

definition emit :: "event \<Rightarrow> world \<Rightarrow> world" where
  "emit e w = w\<lparr>trace := trace w @ [e]\<rparr>"

subsection \<open>The system calls, as POSIX documents their return values\<close>

text \<open>\<^verbatim>\<open>socket\<close> and \<^verbatim>\<open>epoll_create\<close>: a new descriptor, or \<open>-1\<close>.\<close>

definition sys_socket :: "world \<Rightarrow> int \<times> world" where
  "sys_socket w =
     (let a = answer SOCKET w in
      (if a < 0 then -1 else a, emit EvSocket (consume SOCKET w)))"

definition sys_epoll_create :: "world \<Rightarrow> int \<times> world" where
  "sys_epoll_create w =
     (let a = answer EPOLL_CREATE w in
      (if a < 0 then -1 else a, emit EvEpollCreate (consume EPOLL_CREATE w)))"

text \<open>
  \<^verbatim>\<open>inet_pton\<close>: \<open>1\<close> on success, when it has stored the address in network byte
  order (for \<^verbatim>\<open>127.0.0.1\<close> the bytes 127, 0, 0, 1); \<open>0\<close> or \<open>-1\<close> otherwise.
\<close>

definition sys_inet_pton :: "string \<Rightarrow> world \<Rightarrow> int \<times> world" where
  "sys_inet_pton src w =
     (let a = answer INET_PTON w in
      (if a < 0 then -1 else if a = 0 then 0 else 1, emit (EvInetPton src) (consume INET_PTON w)))"

text \<open>
  Calls that answer \<open>0\<close> or \<open>-1\<close>. A call on a negative descriptor fails (\<^verbatim>\<open>EBADF\<close>).
\<close>

definition status :: "int \<Rightarrow> int \<Rightarrow> int" where
  "status fd a = (if fd < 0 \<or> a \<noteq> 0 then -1 else 0)"

definition sys_connect :: "int \<Rightarrow> sockaddr_in \<Rightarrow> world \<Rightarrow> int \<times> world" where
  "sys_connect fd addr w =
     (status fd (answer CONNECT w), emit (EvConnect fd addr) (consume CONNECT w))"

definition sys_bind :: "int \<Rightarrow> sockaddr_in \<Rightarrow> world \<Rightarrow> int \<times> world" where
  "sys_bind fd addr w =
     (status fd (answer BIND w), emit (EvBind fd addr) (consume BIND w))"

definition sys_listen :: "int \<Rightarrow> int \<Rightarrow> world \<Rightarrow> int \<times> world" where
  "sys_listen fd backlog w =
     (status fd (answer LISTEN w), emit (EvListen fd backlog) (consume LISTEN w))"

definition sys_epoll_ctl_add :: "int \<Rightarrow> int \<Rightarrow> epoll_events \<Rightarrow> world \<Rightarrow> int \<times> world" where
  "sys_epoll_ctl_add epfd fd evs w =
     (status (min epfd fd) (answer EPOLL_CTL w), emit (EvEpollCtl epfd fd evs) (consume EPOLL_CTL w))"

text \<open>The return value of \<^verbatim>\<open>close\<close> is never read by the program.\<close>

definition sys_close :: "int \<Rightarrow> world \<Rightarrow> world" where
  "sys_close fd w = emit (EvClose fd) w"

text \<open>
  \<^verbatim>\<open>epoll_wait(epfd, &ev, maxevents, -1)\<close>: \<open>-1\<close> on error, which is the only possible
  answer for a negative \<open>epfd\<close> (\<^verbatim>\<open>EBADF\<close>); otherwise the number of ready descriptors,
  between \<open>0\<close> and \<open>maxevents\<close>.
\<close>

definition sys_epoll_wait :: "int \<Rightarrow> int \<Rightarrow> world \<Rightarrow> int \<times> world" where
  "sys_epoll_wait epfd maxevents w =
     (let a = answer EPOLL_WAIT w in
      (if epfd < 0 \<or> a < 0 then -1 else min a maxevents,
       emit (EvEpollWait epfd) (consume EPOLL_WAIT w)))"

text \<open>
  \<^verbatim>\<open>write(fd, buf, count)\<close>: \<open>-1\<close> on error, otherwise the number of bytes accepted,
  between \<open>0\<close> and \<open>count\<close>; the accepted bytes are the first ones of \<open>buf\<close>.
\<close>

definition sys_write :: "int \<Rightarrow> string \<Rightarrow> nat \<Rightarrow> world \<Rightarrow> int \<times> world" where
  "sys_write fd buf count w =
     (let a = answer WRITE w in
      if fd < 0 \<or> a < 0 then (-1, emit (EvWrite fd []) (consume WRITE w))
      else let n = min (nat a) count in
           (int n, emit (EvWrite fd (take n buf)) (consume WRITE w)))"

text \<open>
  \<^verbatim>\<open>read(fd, buf, count)\<close>: \<open>-1\<close> on error, otherwise the number of bytes delivered, at
  most \<open>count\<close>, together with these bytes.
\<close>

definition sys_read :: "int \<Rightarrow> nat \<Rightarrow> world \<Rightarrow> int \<times> string \<times> world" where
  "sys_read fd count w =
     (let a = answer READ w;
          w' = emit (EvRead fd) (consume READ (w\<lparr>incoming := (\<lambda>i. incoming w (Suc i))\<rparr>)) in
      if fd < 0 \<or> a < 0 then (-1, [], w')
      else let bs = take count (incoming w 0) in (int (length bs), bs, w'))"

text \<open>
  \<^verbatim>\<open>fwrite(ptr, size, nmemb, stdout)\<close> returns the number of complete items of \<open>size\<close>
  bytes written, and \<open>0\<close> when \<open>size\<close> or \<open>nmemb\<close> is \<open>0\<close>. The answer of the
  environment is the number of bytes the stream accepts.
\<close>

definition fwrite_stdout :: "string \<Rightarrow> nat \<Rightarrow> nat \<Rightarrow> world \<Rightarrow> nat \<times> world" where
  "fwrite_stdout ptr sz nmemb w =
     (let a = answer FWRITE w;
          n = (if a < 0 then 0 else min (nat a) (sz * nmemb)) in
      (if sz = 0 then 0 else n div sz, emit (EvStdout (take n ptr)) (consume FWRITE w)))"

definition fprintf_stderr :: "string \<Rightarrow> world \<Rightarrow> world" where
  "fprintf_stderr m w = emit (EvStderr m) w"

text \<open>
  \<^verbatim>\<open>getline(&line, &len, stdin)\<close>: the next line with its length, or \<open>-1\<close> when no line
  can be read, at the end of the file and on a read error alike; the stream's indicator
  records which of the two it was.
\<close>

definition getline :: "world \<Rightarrow> int \<times> string \<times> world" where
  "getline w =
     (case stdin_lines w of
        [] \<Rightarrow> (-1, [], w\<lparr>stdin_indicator := Some (stdin_end w)\<rparr>)
      | l # ls \<Rightarrow> (int (length l), l, w\<lparr>stdin_lines := ls\<rparr>))"

subsection \<open>\<^verbatim>\<open>setup_privex_client\<close> (lines 28 to 84)\<close>

definition setup_privex_client :: "world \<Rightarrow> int \<times> world" where
  "setup_privex_client w0 =
     (let (r, w1) = sys_socket w0;
          w1 = w1\<lparr>privex_sockfd := r\<rparr> in
      if privex_sockfd w1 < 0 then
        (EXIT_FAILURE, fprintf_stderr ''Privex Error : Could not create socket!'' w1)
      else
        let serv_addr = \<lparr>sin_family = AF_INET,
                         sin_port = htons (uint16_cast (privex_port w1)),
                         sin_addr = []\<rparr>;
            (r, w2) = sys_inet_pton ''127.0.0.1'' w1 in
        if r \<le> 0 then
          (let w3 = fprintf_stderr ''Privex Error : inet_pton error occured!'' w2;
               w3 = sys_close (privex_sockfd w3) w3;
               w3 = w3\<lparr>privex_sockfd := -1\<rparr> in
           (EXIT_FAILURE, w3))
        else
          let serv_addr = serv_addr\<lparr>sin_addr := [127, 0, 0, 1]\<rparr>;
              (r, w3) = sys_connect (privex_sockfd w2) serv_addr w2 in
          if r < 0 then
            (let w4 = fprintf_stderr ''Privex Error : Connect failed!'' w3;
                 w4 = sys_close (privex_sockfd w4) w4;
                 w4 = w4\<lparr>privex_sockfd := -1\<rparr> in
             (EXIT_FAILURE, w4))
          else
            let w4 = fprintf_stderr ''Privex Connection : Success!'' w3;
                (r, w5) = sys_epoll_create w4;
                w5 = w5\<lparr>privex_epollfd := r\<rparr> in
            if privex_epollfd w5 < 0 then
              (let w6 = fprintf_stderr
                          ''Privex Error : unable to start client: error in epoll_create: %s'' w5;
                   w6 = sys_close (privex_sockfd w6) w6;
                   w6 = w6\<lparr>privex_sockfd := -1\<rparr> in
               (EXIT_FAILURE, w6))
            else
              let (r, w6) = sys_epoll_ctl_add (privex_epollfd w5) (privex_sockfd w5) EPOLLOUT w5 in
              if r < 0 then
                (let w7 = fprintf_stderr
                            ''Privex Error : unable to start client: error in epoll_ctl: %s'' w6;
                     w7 = sys_close (privex_sockfd w7) w7;
                     w7 = w7\<lparr>privex_sockfd := -1\<rparr>;
                     w7 = sys_close (privex_epollfd w7) w7;
                     w7 = w7\<lparr>privex_epollfd := -1\<rparr> in
                 (EXIT_FAILURE, w7))
              else
                (EXIT_SUCCESS, fprintf_stderr ''Privex Epoll : Success!'' w6))"

subsection \<open>\<^verbatim>\<open>tell_privex\<close> (lines 86 to 131)\<close>

text \<open>
  The two error exits of the send loop (lines 106 to 111 and 118 to 123) print a message,
  close both descriptors and reset both variables.
\<close>

definition teardown :: "string \<Rightarrow> world \<Rightarrow> world" where
  "teardown m w0 =
     (let w1 = fprintf_stderr m w0;
          w1 = sys_close (privex_sockfd w1) w1;
          w1 = w1\<lparr>privex_sockfd := -1\<rparr>;
          w1 = sys_close (privex_epollfd w1) w1;
          w1 = w1\<lparr>privex_epollfd := -1\<rparr> in
      w1)"

text \<open>
  The loop of lines 99 to 128. \<open>None\<close>: the loop never ends. \<^verbatim>\<open>remaining\<close> is a
  \<^verbatim>\<open>size_t\<close>; the subtraction of line 126 cannot wrap around, because \<^verbatim>\<open>write\<close>
  returns at most the count it was given.
\<close>

partial_function (option) tell_privex_loop ::
    "string \<Rightarrow> nat \<Rightarrow> nat \<Rightarrow> world \<Rightarrow> (int \<times> world) option" where
  "tell_privex_loop sendBuff sendBuffLen remaining w =
     (if remaining > 0 then
        let (nReadyFDs, w1) = sys_epoll_wait (privex_epollfd w) 1 w in
        if nReadyFDs = -1 then
          Some (EXIT_FAILURE, teardown ''Privex Error : error in client epoll_wait: %s'' w1)
        else if nReadyFDs > 0 then
          let (written, w2) =
                sys_write (privex_sockfd w1) (drop (sendBuffLen - remaining) sendBuff) remaining w1 in
          if written < 0 then
            Some (EXIT_FAILURE, teardown ''Privex Error : Could not write to the socket: %s'' w2)
          else tell_privex_loop sendBuff sendBuffLen (remaining - nat written) w2
        else tell_privex_loop sendBuff sendBuffLen remaining w1
      else Some (EXIT_SUCCESS, w))"

declare tell_privex_loop.simps [code]

definition tell_privex :: "string \<Rightarrow> nat \<Rightarrow> world \<Rightarrow> (int \<times> world) option" where
  "tell_privex sendBuff sendBuffLen w =
     (if privex_sockfd w < 0 \<or> privex_epollfd w < 0 then
        let (r, w1) = setup_privex_client w in
        if r \<noteq> EXIT_SUCCESS then
          Some (EXIT_FAILURE,
                fprintf_stderr ''Privex Error : Server not running or not on port expected!'' w1)
        else tell_privex_loop sendBuff sendBuffLen sendBuffLen w1
      else tell_privex_loop sendBuff sendBuffLen sendBuffLen w)"

subsection \<open>\<^verbatim>\<open>load\<close> (lines 133 to 151)\<close>

text \<open>
  The loop of line 141 tests \<^verbatim>\<open>result\<close> first and calls \<^verbatim>\<open>getline\<close> only when it is
  \<^verbatim>\<open>EXIT_SUCCESS\<close>. \<open>None\<close>: a send never ended.
\<close>

partial_function (option) load_loop :: "int \<Rightarrow> world \<Rightarrow> (int \<times> world) option" where
  "load_loop result w =
     (if result = EXIT_SUCCESS then
        let (readlen, line, w1) = getline w in
        if readlen \<noteq> -1 then
          Option.bind (tell_privex line (nat readlen) w1) (\<lambda>(r, w2). load_loop r w2)
        else Some (result, w1)
      else Some (result, w))"

declare load_loop.simps [code]

definition load :: "int \<Rightarrow> world \<Rightarrow> (int \<times> world) option" where
  "load port w = load_loop EXIT_SUCCESS (w\<lparr>privex_port := port\<rparr>)"

subsection \<open>\<^verbatim>\<open>setup_privex_server\<close> (lines 153 to 213)\<close>

definition setup_privex_server :: "world \<Rightarrow> int \<times> world" where
  "setup_privex_server w0 =
     (let (r, w1) = sys_socket w0;
          w1 = w1\<lparr>privex_sockfd := r\<rparr> in
      if privex_sockfd w1 < 0 then
        (EXIT_FAILURE,
         fprintf_stderr ''Privex Error : unable to start server: error in socket: %s'' w1)
      else
        let bindAddress = \<lparr>sin_family = AF_INET,
                           sin_port = htons (uint16_cast (privex_port w1)),
                           sin_addr = htonl INADDR_LOOPBACK\<rparr>;
            (res, w2) = sys_bind (privex_sockfd w1) bindAddress w1 in
        if res = -1 then
          (let w3 = fprintf_stderr
                      ''Privex Error : unable to start server: error in bind: %s'' w2;
               w3 = sys_close (privex_sockfd w3) w3;
               w3 = w3\<lparr>privex_sockfd := -1\<rparr> in
           (EXIT_FAILURE, w3))
        else
          let (res, w3) = sys_listen (privex_sockfd w2) 100 w2 in
          if res = -1 then
            (let w4 = fprintf_stderr
                        ''Privex Error : unable to start server: error in listen: %s'' w3;
                 w4 = sys_close (privex_sockfd w4) w4;
                 w4 = w4\<lparr>privex_sockfd := -1\<rparr> in
             (EXIT_FAILURE, w4))
          else
            let (r, w4) = sys_epoll_create w3;
                w4 = w4\<lparr>privex_epollfd := r\<rparr> in
            if privex_epollfd w4 < 0 then
              (let w5 = fprintf_stderr
                          ''Privex Error : unable to start server: error in epoll_create: %s'' w4;
                   w5 = sys_close (privex_sockfd w5) w5;
                   w5 = w5\<lparr>privex_sockfd := -1\<rparr> in
               (EXIT_FAILURE, w5))
            else
              let (res, w5) = sys_epoll_ctl_add (privex_epollfd w4) (privex_sockfd w4) EPOLLIN w4 in
              if res = -1 then
                (let w6 = fprintf_stderr
                            ''Privex Error : unable to start server: error in epoll_ctl: %s'' w5;
                     w6 = sys_close (privex_sockfd w6) w6;
                     w6 = w6\<lparr>privex_sockfd := -1\<rparr>;
                     w6 = sys_close (privex_epollfd w6) w6;
                     w6 = w6\<lparr>privex_epollfd := -1\<rparr> in
                 (EXIT_FAILURE, w6))
              else (EXIT_SUCCESS, w5))"

subsection \<open>\<^verbatim>\<open>echo_data\<close> (lines 215 to 247)\<close>

text \<open>
  \<^verbatim>\<open>echo_data\<close> is declared to return an \<^verbatim>\<open>int\<close>, but only its error exits have a
  \<^verbatim>\<open>return\<close> statement: on the other paths control reaches the closing brace of line
  247. The result is \<open>Some r\<close> for \<^verbatim>\<open>return r\<close> and \<open>None\<close> when the function ends without
  returning a value.

  Lines 223 to 247, after the descriptors have been checked: \<^verbatim>\<open>fwrite\<close> is called with
  item size \<^verbatim>\<open>numRead\<close> and item count \<open>1\<close>, and its result is compared with
  \<^verbatim>\<open>numRead\<close>.
\<close>

definition echo_data_body :: "world \<Rightarrow> int option \<times> world" where
  "echo_data_body w =
     (let buffLen = 8192;
          (numRead, readBuff, w1) = sys_read (privex_sockfd w) buffLen w in
      if numRead < 0 then
        (Some EXIT_FAILURE, teardown ''Privex Error : Could not read from the socket: %s'' w1)
      else if numRead > 0 then
        let (numWritten, w2) = fwrite_stdout readBuff (nat numRead) 1 w1 in
        if numRead \<noteq> int numWritten then
          (Some EXIT_FAILURE, teardown ''Privex Error : Could not write to stdout: %s'' w2)
        else (None, w2)
      else (None, w1))"

definition echo_data :: "world \<Rightarrow> int option \<times> world" where
  "echo_data w =
     (if privex_sockfd w < 0 \<or> privex_epollfd w < 0 then
        let (r, w1) = setup_privex_server w in
        if r \<noteq> EXIT_SUCCESS then
          (Some EXIT_FAILURE,
           fprintf_stderr ''Privex Error : problem running or not on port expected!'' w1)
        else echo_data_body w1
      else echo_data_body w)"

subsection \<open>\<^verbatim>\<open>dump\<close> (lines 249 to 278)\<close>

text \<open>
  What a run of \<^verbatim>\<open>dump\<close> or \<^verbatim>\<open>main\<close> comes to: \<open>Exit r\<close> when it returns \<open>r\<close>;
  \<open>Undefined\<close> when it uses a value the C standard leaves undefined (the value of a call
  that ended without \<^verbatim>\<open>return\<close>).
\<close>

datatype outcome = Exit int | Undefined

text \<open>The loop of lines 256 to 274. \<open>None\<close>: the loop never ends.\<close>

partial_function (option) dump_loop :: "world \<Rightarrow> (outcome \<times> world) option" where
  "dump_loop w =
     (let (nReadyFDs, w1) = sys_epoll_wait (privex_epollfd w) 1 w in
      if nReadyFDs = -1 then
        Some (Exit EXIT_FAILURE,
              fprintf_stderr ''Privex Error : error in client epoll_wait: %s'' w1)
      else if nReadyFDs > 0 then
        (case echo_data w1 of
           (None, w2) \<Rightarrow> Some (Undefined, w2)
         | (Some r, w2) \<Rightarrow>
             if r \<noteq> EXIT_SUCCESS then Some (Exit EXIT_FAILURE, w2) else dump_loop w2)
      else dump_loop w1)"

declare dump_loop.simps [code]

definition dump :: "int \<Rightarrow> world \<Rightarrow> (outcome \<times> world) option" where
  "dump port w = dump_loop (w\<lparr>privex_port := port\<rparr>)"

subsection \<open>\<^verbatim>\<open>main\<close> (lines 280 to 289)\<close>

text \<open>
  The two library functions \<^verbatim>\<open>main\<close> calls. \<^verbatim>\<open>strncasecmp(s1, s2, n)\<close> compares at
  most \<open>n\<close> characters, ignoring the case of letters, and stops at the end of a string;
  the end of a list stands for the terminating zero byte.
\<close>

definition tolower :: "char \<Rightarrow> char" where
  "tolower c =
     (if 65 \<le> (of_char c :: nat) \<and> (of_char c :: nat) \<le> 90
      then char_of ((of_char c :: nat) + 32) else c)"

fun strncasecmp :: "string \<Rightarrow> string \<Rightarrow> nat \<Rightarrow> int" where
  "strncasecmp s1 s2 0 = 0"
| "strncasecmp s1 s2 (Suc n) =
     (let c1 = (case s1 of [] \<Rightarrow> CHR 0x00 | c # _ \<Rightarrow> tolower c);
          c2 = (case s2 of [] \<Rightarrow> CHR 0x00 | c # _ \<Rightarrow> tolower c) in
      if c1 \<noteq> c2 then int (of_char c1) - int (of_char c2)
      else if c1 = CHR 0x00 then 0
      else strncasecmp (tl s1) (tl s2) n)"

text \<open>
  \<^verbatim>\<open>atoi(nptr)\<close> is \<^verbatim>\<open>(int) strtol(nptr, NULL, 10)\<close>. \<^verbatim>\<open>strtol\<close> skips white space,
  then reads an optional sign and the longest run of decimal digits; no digits give \<open>0\<close>,
  and a number outside the range of \<^verbatim>\<open>long\<close> (64 bits) gives \<^verbatim>\<open>LONG_MAX\<close> or
  \<^verbatim>\<open>LONG_MIN\<close>. The conversion to \<^verbatim>\<open>int\<close> (32 bits) keeps the low 32 bits, read in
  two's complement.
\<close>

definition isspace :: "char \<Rightarrow> bool" where
  "isspace c = ((of_char c :: nat) = 32 \<or> (9 \<le> (of_char c :: nat) \<and> (of_char c :: nat) \<le> 13))"

definition isdigit :: "char \<Rightarrow> bool" where
  "isdigit c = (48 \<le> (of_char c :: nat) \<and> (of_char c :: nat) \<le> 57)"

text \<open>Whether a minus sign was read, and the characters after white space and sign.\<close>

definition sign_and_digits :: "string \<Rightarrow> bool \<times> string" where
  "sign_and_digits nptr =
     (case dropWhile isspace nptr of
        [] \<Rightarrow> (False, [])
      | c # cs \<Rightarrow>
          if c = CHR ''-'' then (True, cs)
          else if c = CHR ''+'' then (False, cs)
          else (False, c # cs))"

fun digits_value :: "int \<Rightarrow> string \<Rightarrow> int" where
  "digits_value acc [] = acc"
| "digits_value acc (c # cs) =
     (if isdigit c then digits_value (10 * acc + ((of_char c :: int) - 48)) cs else acc)"

text \<open>The number the string starts with, as a mathematical integer.\<close>

definition written_number :: "string \<Rightarrow> int" where
  "written_number nptr =
     (let (neg, ds) = sign_and_digits nptr;
          v = digits_value 0 ds in
      if neg then - v else v)"

definition LONG_MAX :: int where
  "LONG_MAX = 2 ^ 63 - 1"

definition LONG_MIN :: int where
  "LONG_MIN = - (2 ^ 63)"

definition strtol :: "string \<Rightarrow> int" where
  "strtol nptr = max LONG_MIN (min LONG_MAX (written_number nptr))"

definition int_cast :: "int \<Rightarrow> int" where
  "int_cast x = (x + 2 ^ 31) mod 2 ^ 32 - 2 ^ 31"

definition atoi :: "string \<Rightarrow> int" where
  "atoi nptr = int_cast (strtol nptr)"

text \<open>
  The usage message of line 286, with \<^verbatim>\<open>argv[0]\<close> filled in (the C library prints
  \<^verbatim>\<open>(null)\<close> for a missing one).
\<close>

definition usage :: "string list \<Rightarrow> string" where
  "usage argv =
     ''Privex Error : argv format error, expected: ''
     @ (case argv of [] \<Rightarrow> ''(null)'' | a # _ \<Rightarrow> a)
     @ '' <'dump'|'load'> <privex_port>''"

definition main :: "int \<Rightarrow> string list \<Rightarrow> world \<Rightarrow> (outcome \<times> world) option" where
  "main argc argv w =
     (if argc = 3 \<and> strncasecmp (argv ! 1) ''dump'' 4 = 0 then
        dump (atoi (argv ! 2)) w
      else if argc = 3 \<and> strncasecmp (argv ! 1) ''load'' 4 = 0 then
        map_option (\<lambda>(r, w'). (Exit r, w')) (load (atoi (argv ! 2)) w)
      else Some (Exit EXIT_FAILURE, fprintf_stderr (usage argv) w))"

subsection \<open>Notions used to state the properties\<close>

text \<open>
  The connection descriptor and the readiness handle are both valid or both invalid.
\<close>

definition handle_inv :: "world \<Rightarrow> bool" where
  "handle_inv w =
     ((0 \<le> privex_sockfd w \<and> 0 \<le> privex_epollfd w) \<or> (privex_sockfd w < 0 \<and> privex_epollfd w < 0))"

text \<open>The bytes a trace hands to the kernel through \<^verbatim>\<open>write\<close>, in order.\<close>

fun write_payload :: "event \<Rightarrow> string" where
  "write_payload (EvWrite fd bs) = bs"
| "write_payload _ = []"

definition written_bytes :: "event list \<Rightarrow> string" where
  "written_bytes evs = concat (map write_payload evs)"

text \<open>\<open>write_on fd e\<close>: if \<open>e\<close> is a \<^verbatim>\<open>write\<close>, it is one on descriptor \<open>fd\<close>.\<close>

fun write_on :: "int \<Rightarrow> event \<Rightarrow> bool" where
  "write_on fd (EvWrite fd' bs) = (fd' = fd)"
| "write_on fd _ = True"

text \<open>
  \<open>sends_ok ls w\<close>: the lines \<open>ls\<close>, taken from standard input and sent one after the
  other from the state \<open>w\<close>, are all sent with success; the result is the state after
  the last of them.
\<close>

fun sends_ok :: "string list \<Rightarrow> world \<Rightarrow> world option" where
  "sends_ok [] w = Some w"
| "sends_ok (l # ls) w =
     (case tell_privex l (length l) (w\<lparr>stdin_lines := ls\<rparr>) of
        None \<Rightarrow> None
      | Some (r, w1) \<Rightarrow> if r = EXIT_SUCCESS then sends_ok ls w1 else None)"

subsection \<open>Example environments\<close>

text \<open>
  An operating system on which every call succeeds: \<^verbatim>\<open>socket\<close> answers descriptor 3 and
  \<^verbatim>\<open>epoll_create\<close> descriptor 4, every wait reports one ready descriptor, every
  \<^verbatim>\<open>write\<close> accepts two bytes, and standard output accepts whatever it is given.
\<close>

definition friendly_kernel :: "syscall \<Rightarrow> nat \<Rightarrow> int" where
  "friendly_kernel k i =
     (case k of SOCKET \<Rightarrow> 3 | EPOLL_CREATE \<Rightarrow> 4 | INET_PTON \<Rightarrow> 1 | EPOLL_WAIT \<Rightarrow> 1
      | WRITE \<Rightarrow> 2 | FWRITE \<Rightarrow> 8192 | _ \<Rightarrow> 0)"

definition silent_peer :: "nat \<Rightarrow> string" where
  "silent_peer i = []"

text \<open>
  Three more operating systems. On the first every wait comes back with no descriptor
  ready; on the second only the first wait does, and a \<^verbatim>\<open>write\<close> accepts one byte; on
  the third every wait reports a ready descriptor, but a \<^verbatim>\<open>write\<close> accepts no byte.
\<close>

definition spurious_kernel :: "syscall \<Rightarrow> nat \<Rightarrow> int" where
  "spurious_kernel k i = (if k = EPOLL_WAIT then 0 else friendly_kernel k i)"

definition sluggish_kernel :: "syscall \<Rightarrow> nat \<Rightarrow> int" where
  "sluggish_kernel k i =
     (if k = EPOLL_WAIT then (if i = 0 then 0 else 1)
      else if k = WRITE then 1 else friendly_kernel k i)"

definition stalled_kernel :: "syscall \<Rightarrow> nat \<Rightarrow> int" where
  "stalled_kernel k i = (if k = WRITE then 0 else friendly_kernel k i)"


text \<open>
  \<open>port_on_wire p e\<close>: if \<open>e\<close> is a \<^verbatim>\<open>connect\<close> or a \<^verbatim>\<open>bind\<close>, the port field of its
  address holds the bytes \<open>p\<close>.
\<close>

fun port_on_wire :: "byte list \<Rightarrow> event \<Rightarrow> bool" where
  "port_on_wire p (EvConnect fd a) = (sin_port a = p)"
| "port_on_wire p (EvBind fd a) = (sin_port a = p)"
| "port_on_wire p _ = True"

text \<open>A peer whose every \<^verbatim>\<open>read\<close> delivers the six bytes \<^verbatim>\<open>hello!\<close>.\<close>

definition hello_peer :: "nat \<Rightarrow> string" where
  "hello_peer i = ''hello!''"

section \<open>Properties\<close>

subsection \<open>Basic facts about the system calls\<close>

lemma exit_codes_differ: "EXIT_FAILURE \<noteq> EXIT_SUCCESS"
  by (simp add: EXIT_FAILURE_def EXIT_SUCCESS_def)

lemmas sys_defs = sys_socket_def sys_inet_pton_def sys_connect_def sys_bind_def sys_listen_def
  sys_epoll_create_def sys_epoll_ctl_add_def sys_close_def fprintf_stderr_def emit_def consume_def
  answer_def status_def

lemma sys_epoll_wait_frame:
  "sys_epoll_wait epfd m w = (n, w1) \<Longrightarrow>
     privex_sockfd w1 = privex_sockfd w \<and> privex_epollfd w1 = privex_epollfd w \<and>
     privex_port w1 = privex_port w \<and> stdin_lines w1 = stdin_lines w \<and>
     stdin_end w1 = stdin_end w \<and> stdin_indicator w1 = stdin_indicator w \<and>
     trace w1 = trace w @ [EvEpollWait epfd]"
  by (auto simp: sys_epoll_wait_def Let_def emit_def consume_def)

lemma sys_write_frame:
  "sys_write fd buf count w = (n, w1) \<Longrightarrow>
     privex_sockfd w1 = privex_sockfd w \<and> privex_epollfd w1 = privex_epollfd w \<and>
     privex_port w1 = privex_port w \<and> stdin_lines w1 = stdin_lines w \<and>
     stdin_end w1 = stdin_end w \<and> stdin_indicator w1 = stdin_indicator w"
  by (auto simp: sys_write_def Let_def emit_def consume_def split: if_splits)

lemma teardown_frame:
  "privex_sockfd (teardown m w) = -1 \<and> privex_epollfd (teardown m w) = -1 \<and>
   privex_port (teardown m w) = privex_port w \<and> stdin_lines (teardown m w) = stdin_lines w \<and>
   stdin_end (teardown m w) = stdin_end w \<and> stdin_indicator (teardown m w) = stdin_indicator w \<and>
   trace (teardown m w) =
     trace w @ [EvStderr m, EvClose (privex_sockfd w), EvClose (privex_epollfd w)]"
  by (simp add: teardown_def Let_def fprintf_stderr_def sys_close_def emit_def)

lemma written_bytes_simps:
  "written_bytes [] = []"
  "written_bytes (e # evs) = write_payload e @ written_bytes evs"
  "written_bytes (evs @ evs') = written_bytes evs @ written_bytes evs'"
  by (simp_all add: written_bytes_def)

lemma sys_write_result:
  assumes "sys_write fd buf count w = (k, w1)" and "0 \<le> k"
  shows "nat k \<le> count \<and> trace w1 = trace w @ [EvWrite fd (take (nat k) buf)]"
  using assms by (auto simp: sys_write_def Let_def emit_def consume_def split: if_splits)

lemma take_drop_step:
  assumes "k \<le> r" and "r \<le> l"
  shows "take k (drop (l - r) (b :: 'a list)) @ take (r - k) (drop (l - (r - k)) b) = take r (drop (l - r) b)"
proof -
  have a: "drop (l - (r - k)) b = drop k (drop (l - r) b)"
    using assms by (simp add: add.commute)
  have b: "take k xs @ take (r - k) (drop k xs) = take r xs" for xs :: "'a list"
    using assms(1) by (metis le_add_diff_inverse take_add)
  show ?thesis unfolding a by (rule b)
qed

subsection \<open>The send loop\<close>

text \<open>
  An induction rule for the runs of the send loop that end: one case for each way an
  iteration can go.
\<close>

lemma tell_privex_loop_induct [consumes 1, case_names finished wait_error write_error written spurious]:
  assumes run: "tell_privex_loop b l r w = Some y"
    and finished: "\<And>w. P 0 w (EXIT_SUCCESS, w)"
    and wait_error: "\<And>r w w1. 0 < r \<Longrightarrow> sys_epoll_wait (privex_epollfd w) 1 w = (-1, w1) \<Longrightarrow>
        P r w (EXIT_FAILURE, teardown ''Privex Error : error in client epoll_wait: %s'' w1)"
    and write_error: "\<And>r w n w1 k w2. 0 < r \<Longrightarrow> sys_epoll_wait (privex_epollfd w) 1 w = (n, w1) \<Longrightarrow>
        0 < n \<Longrightarrow> sys_write (privex_sockfd w1) (drop (l - r) b) r w1 = (k, w2) \<Longrightarrow> k < 0 \<Longrightarrow>
        P r w (EXIT_FAILURE, teardown ''Privex Error : Could not write to the socket: %s'' w2)"
    and written: "\<And>r w n w1 k w2 y. 0 < r \<Longrightarrow> sys_epoll_wait (privex_epollfd w) 1 w = (n, w1) \<Longrightarrow>
        0 < n \<Longrightarrow> sys_write (privex_sockfd w1) (drop (l - r) b) r w1 = (k, w2) \<Longrightarrow> 0 \<le> k \<Longrightarrow>
        P (r - nat k) w2 y \<Longrightarrow> P r w y"
    and spurious: "\<And>r w n w1 y. 0 < r \<Longrightarrow> sys_epoll_wait (privex_epollfd w) 1 w = (n, w1) \<Longrightarrow>
        n \<noteq> -1 \<Longrightarrow> \<not> 0 < n \<Longrightarrow> P r w1 y \<Longrightarrow> P r w y"
  shows "P r w y"
proof -
  have "b = b \<and> l = l \<longrightarrow> P r w y"
  proof (rule tell_privex_loop.raw_induct
         [where P = "\<lambda>b' l' r w y. b' = b \<and> l' = l \<longrightarrow> P r w y", OF _ run])
  fix loop :: "string \<Rightarrow> nat \<Rightarrow> nat \<Rightarrow> world \<Rightarrow> (int \<times> world) option"
  fix b' l' r w y
  assume IH: "\<And>b' l' r w y. loop b' l' r w = Some y \<Longrightarrow> b' = b \<and> l' = l \<longrightarrow> P r w y"
  obtain n w1 where wt: "sys_epoll_wait (privex_epollfd w) 1 w = (n, w1)"
    by (cases "sys_epoll_wait (privex_epollfd w) 1 w")
  obtain k w2 where wr: "sys_write (privex_sockfd w1) (drop (l' - r) b') r w1 = (k, w2)"
    by (cases "sys_write (privex_sockfd w1) (drop (l' - r) b') r w1")
  assume "(if 0 < r
      then let (nReadyFDs, w1) = sys_epoll_wait (privex_epollfd w) 1 w
           in if nReadyFDs = - 1
              then Some (EXIT_FAILURE, teardown ''Privex Error : error in client epoll_wait: %s'' w1)
              else if 0 < nReadyFDs
                   then let (written, w2) =
                              sys_write (privex_sockfd w1) (drop (l' - r) b') r w1
                        in if written < 0
                           then Some (EXIT_FAILURE,
                                  teardown ''Privex Error : Could not write to the socket: %s'' w2)
                           else loop b' l' (r - nat written) w2
                   else loop b' l' r w1
      else Some (EXIT_SUCCESS, w)) = Some y"
  then consider
      (z) "r = 0" "y = (EXIT_SUCCESS, w)"
    | (a) "0 < r" "n = -1"
          "y = (EXIT_FAILURE, teardown ''Privex Error : error in client epoll_wait: %s'' w1)"
    | (b) "0 < r" "0 < n" "k < 0"
          "y = (EXIT_FAILURE, teardown ''Privex Error : Could not write to the socket: %s'' w2)"
    | (c) "0 < r" "0 < n" "0 \<le> k" "loop b' l' (r - nat k) w2 = Some y"
    | (d) "0 < r" "n \<noteq> -1" "\<not> 0 < n" "loop b' l' r w1 = Some y"
    apply (simp only: wt wr Let_def split_conv)
    apply (cases "0 < r"; cases "n = -1"; cases "0 < n"; cases "k < 0")
                   apply (simp_all only: if_True if_False option.inject refl)
                   apply (simp_all (no_asm_use))
    done
  then show "b' = b \<and> l' = l \<longrightarrow> P r w y"
  proof cases
    case z then show ?thesis using finished by simp
  next
    case a then show ?thesis using wait_error wt by simp
  next
    case b then show ?thesis using write_error [of r w n w1 k w2] wt wr by auto
  next
    case c then show ?thesis using written [of r w n w1 k w2 y] IH [OF c(4)] wt wr by auto
  next
    case d then show ?thesis using spurious [of r w n w1 y] IH [OF d(4)] wt by auto
  qed
  qed
  then show ?thesis by simp
qed

lemma tell_privex_loop_sends:
  assumes "tell_privex_loop b l r w = Some y"
  shows "fst y = EXIT_SUCCESS \<longrightarrow> r \<le> l \<longrightarrow>
           privex_sockfd (snd y) = privex_sockfd w \<and> privex_epollfd (snd y) = privex_epollfd w \<and>
           (\<exists>evs. trace (snd y) = trace w @ evs \<and>
                  written_bytes evs = take r (drop (l - r) b) \<and>
                  list_all (write_on (privex_sockfd w)) evs)"
  using assms
proof (induction rule: tell_privex_loop_induct)
  case (finished w)
  then show ?case by (simp add: written_bytes_simps)
next
  case (wait_error r w w1)
  then show ?case by (simp add: exit_codes_differ)
next
  case (write_error r w n w1 k w2)
  then show ?case by (simp add: exit_codes_differ)
next
  case (written r w n w1 k w2 y)
  note f1 = sys_epoll_wait_frame [OF written(2)]
  note f2 = sys_write_frame [OF written(4)]
  note res = sys_write_result [OF written(4,5)]
  show ?case
  proof (intro impI)
    assume ok: "fst y = EXIT_SUCCESS" and rl: "r \<le> l"
    from written(6) ok rl obtain evs where
      fds: "privex_sockfd (snd y) = privex_sockfd w2" "privex_epollfd (snd y) = privex_epollfd w2"
      and evs: "trace (snd y) = trace w2 @ evs"
        "written_bytes evs = take (r - nat k) (drop (l - (r - nat k)) b)"
        "list_all (write_on (privex_sockfd w2)) evs"
      by auto
    let ?new = "EvEpollWait (privex_epollfd w) # EvWrite (privex_sockfd w) (take (nat k) (drop (l - r) b)) # evs"
    have "trace (snd y) = trace w @ ?new"
      using evs(1) res f1 by simp
    moreover have "written_bytes ?new = take r (drop (l - r) b)"
      using evs(2) res rl take_drop_step [of "nat k" r l b] by (simp add: written_bytes_simps)
    moreover have "list_all (write_on (privex_sockfd w)) ?new"
      using evs(3) f1 f2 by simp
    ultimately have "\<exists>evs. trace (snd y) = trace w @ evs \<and>
                  written_bytes evs = take r (drop (l - r) b) \<and>
                  list_all (write_on (privex_sockfd w)) evs"
      by blast
    then show "privex_sockfd (snd y) = privex_sockfd w \<and> privex_epollfd (snd y) = privex_epollfd w \<and>
           (\<exists>evs. trace (snd y) = trace w @ evs \<and>
                  written_bytes evs = take r (drop (l - r) b) \<and>
                  list_all (write_on (privex_sockfd w)) evs)"
      using fds f1 f2 by simp
  qed
next
  case (spurious r w n w1 y)
  note f1 = sys_epoll_wait_frame [OF spurious(2)]
  show ?case
  proof (intro impI)
    assume ok: "fst y = EXIT_SUCCESS" and rl: "r \<le> l"
    from spurious(5) ok rl obtain evs where
      fds: "privex_sockfd (snd y) = privex_sockfd w1" "privex_epollfd (snd y) = privex_epollfd w1"
      and evs: "trace (snd y) = trace w1 @ evs"
        "written_bytes evs = take r (drop (l - r) b)"
        "list_all (write_on (privex_sockfd w1)) evs"
      by auto
    let ?new = "EvEpollWait (privex_epollfd w) # evs"
    have "trace (snd y) = trace w @ ?new"
      using evs(1) f1 by simp
    moreover have "written_bytes ?new = take r (drop (l - r) b)"
      using evs(2) by (simp add: written_bytes_simps)
    moreover have "list_all (write_on (privex_sockfd w)) ?new"
      using evs(3) f1 by simp
    ultimately have "\<exists>evs. trace (snd y) = trace w @ evs \<and>
                  written_bytes evs = take r (drop (l - r) b) \<and>
                  list_all (write_on (privex_sockfd w)) evs"
      by blast
    then show "privex_sockfd (snd y) = privex_sockfd w \<and> privex_epollfd (snd y) = privex_epollfd w \<and>
           (\<exists>evs. trace (snd y) = trace w @ evs \<and>
                  written_bytes evs = take r (drop (l - r) b) \<and>
                  list_all (write_on (privex_sockfd w)) evs)"
      using fds f1 by simp
  qed
qed

lemma setup_privex_client_trace:
  "\<exists>evs. trace (snd (setup_privex_client w)) = trace w @ EvSocket # evs \<and>
         written_bytes evs = [] \<and> (\<forall>fd. list_all (write_on fd) evs)"
  by (simp add: setup_privex_client_def Let_def split_beta sys_defs written_bytes_def)

lemma setup_privex_client_frame:
  "privex_port (snd (setup_privex_client w)) = privex_port w \<and>
   stdin_lines (snd (setup_privex_client w)) = stdin_lines w \<and>
   stdin_end (snd (setup_privex_client w)) = stdin_end w \<and>
   stdin_indicator (snd (setup_privex_client w)) = stdin_indicator w \<and>
   answers (snd (setup_privex_client w)) WRITE = answers w WRITE \<and>
   answers (snd (setup_privex_client w)) EPOLL_WAIT = answers w EPOLL_WAIT"
  by (simp add: setup_privex_client_def Let_def split_beta sys_defs)

subsection \<open>Claim C1: a successful send delivers the record\<close>

text \<open>
  Claim C1. If \<^verbatim>\<open>tell_privex\<close> returns \<^verbatim>\<open>EXIT_SUCCESS\<close> for a record of
  \<open>sendBuffLen\<close> bytes, then the calls it made are appended to the trace, the bytes the
  kernel accepted through \<^verbatim>\<open>write\<close> are, in order, exactly the bytes of the record,
  every one of these writes went to the connection descriptor, and the byte counts of the
  partial writes add up to the record length.
\<close>

theorem tell_privex_sends_record:
  assumes run: "tell_privex sendBuff sendBuffLen w = Some (EXIT_SUCCESS, w')"
    and len: "sendBuffLen \<le> length sendBuff"
  shows "\<exists>evs. trace w' = trace w @ evs \<and>
               written_bytes evs = take sendBuffLen sendBuff \<and>
               list_all (write_on (privex_sockfd w')) evs \<and>
               sum_list (map (length \<circ> write_payload) evs) = sendBuffLen"
proof -
  obtain w1 evs0 where
    loop: "tell_privex_loop sendBuff sendBuffLen sendBuffLen w1 = Some (EXIT_SUCCESS, w')"
    and pre: "trace w1 = trace w @ evs0" "written_bytes evs0 = []"
      "\<forall>fd. list_all (write_on fd) evs0"
  proof (cases "privex_sockfd w < 0 \<or> privex_epollfd w < 0")
    case False
    with run have "tell_privex_loop sendBuff sendBuffLen sendBuffLen w = Some (EXIT_SUCCESS, w')"
      by (simp add: tell_privex_def)
    then show ?thesis using that [of w "[]"] by (simp add: written_bytes_def)
  next
    case True
    obtain evs where evs: "trace (snd (setup_privex_client w)) = trace w @ EvSocket # evs"
      "written_bytes evs = []" "\<forall>fd. list_all (write_on fd) evs"
      using setup_privex_client_trace by blast
    from run True
    have "tell_privex_loop sendBuff sendBuffLen sendBuffLen (snd (setup_privex_client w))
            = Some (EXIT_SUCCESS, w')"
      by (simp add: tell_privex_def split_beta exit_codes_differ split: if_splits)
    then show ?thesis
      using that [of "snd (setup_privex_client w)" "EvSocket # evs"] evs
      by (simp add: written_bytes_simps)
  qed
  from tell_privex_loop_sends [OF loop] obtain evs where
    fd: "privex_sockfd w' = privex_sockfd w1"
    and evs: "trace w' = trace w1 @ evs" "written_bytes evs = take sendBuffLen sendBuff"
      "list_all (write_on (privex_sockfd w1)) evs"
    by auto
  let ?all = "evs0 @ evs"
  have "trace w' = trace w @ ?all"
    using pre(1) evs(1) by simp
  moreover have wb: "written_bytes ?all = take sendBuffLen sendBuff"
    using pre(2) evs(2) by (simp add: written_bytes_simps)
  moreover have "list_all (write_on (privex_sockfd w')) ?all"
    using pre(3) evs(3) fd by simp
  moreover have "sum_list (map (length \<circ> write_payload) ?all) = sendBuffLen"
  proof -
    have "sum_list (map (length \<circ> write_payload) ?all) = length (written_bytes ?all)"
      unfolding written_bytes_def by (simp add: length_concat comp_def)
    then show ?thesis using wb len by simp
  qed
  ultimately show ?thesis by blast
qed

theorem tell_privex_sends_record_witness:
  "\<exists>w'. tell_privex ''hello'' 5 (init_world friendly_kernel silent_peer [] EndOfFile)
           = Some (EXIT_SUCCESS, w') \<and>
        (\<exists>evs. trace w' = trace (init_world friendly_kernel silent_peer [] EndOfFile) @ evs \<and>
               written_bytes evs = take 5 ''hello'' \<and>
               list_all (write_on (privex_sockfd w')) evs \<and>
               sum_list (map (length \<circ> write_payload) evs) = 5)"
proof -
  let ?w = "init_world friendly_kernel silent_peer [] EndOfFile"
  have "map_option fst (tell_privex ''hello'' 5 ?w) = Some EXIT_SUCCESS"
    by code_simp
  then obtain w' where run: "tell_privex ''hello'' 5 ?w = Some (EXIT_SUCCESS, w')"
    by (cases "tell_privex ''hello'' 5 ?w") auto
  from tell_privex_sends_record [OF run] run show ?thesis
    by simp
qed

subsection \<open>Claim C2: the two handles are valid together or invalid together\<close>

lemma tell_privex_loop_inv:
  assumes "tell_privex_loop b l r w = Some y"
  shows "handle_inv w \<longrightarrow> handle_inv (snd y)"
  using assms
proof (induction rule: tell_privex_loop_induct)
  case (finished w)
  then show ?case by simp
next
  case (wait_error r w w1)
  then show ?case by (simp add: handle_inv_def teardown_frame)
next
  case (write_error r w n w1 k w2)
  then show ?case by (simp add: handle_inv_def teardown_frame)
next
  case (written r w n w1 k w2 y)
  then show ?case
    using sys_epoll_wait_frame [of "privex_epollfd w" 1 w n w1]
      sys_write_frame [of "privex_sockfd w1" _ r w1 k w2]
    by (simp add: handle_inv_def)
next
  case (spurious r w n w1 y)
  then show ?case
    using sys_epoll_wait_frame [of "privex_epollfd w" 1 w n w1] by (simp add: handle_inv_def)
qed

lemma setup_privex_client_inv:
  "privex_epollfd w < 0 \<Longrightarrow> handle_inv (snd (setup_privex_client w))"
  by (simp add: setup_privex_client_def handle_inv_def Let_def split_beta sys_defs)

lemma setup_privex_server_inv:
  "privex_epollfd w < 0 \<Longrightarrow> handle_inv (snd (setup_privex_server w))"
  by (simp add: setup_privex_server_def handle_inv_def Let_def split_beta sys_defs)

lemma tell_privex_inv:
  assumes "tell_privex b l w = Some y" and "handle_inv w"
  shows "handle_inv (snd y)"
proof (cases "privex_sockfd w < 0 \<or> privex_epollfd w < 0")
  case False
  with assms tell_privex_loop_inv [of b l l w y] show ?thesis
    by (simp add: tell_privex_def)
next
  case True
  with assms(2) have neg: "privex_epollfd w < 0"
    by (auto simp: handle_inv_def)
  note inv1 = setup_privex_client_inv [OF neg]
  show ?thesis
  proof (cases "fst (setup_privex_client w) \<noteq> EXIT_SUCCESS")
    case True
    with assms(1) \<open>privex_sockfd w < 0 \<or> privex_epollfd w < 0\<close> inv1 show ?thesis
      by (auto simp: tell_privex_def split_beta handle_inv_def fprintf_stderr_def emit_def)
  next
    case False
    with assms(1) \<open>privex_sockfd w < 0 \<or> privex_epollfd w < 0\<close>
    have "tell_privex_loop b l l (snd (setup_privex_client w)) = Some y"
      by (simp add: tell_privex_def split_beta)
    from tell_privex_loop_inv [OF this] inv1 show ?thesis by simp
  qed
qed

lemma sys_read_frame:
  "sys_read fd count w = (n, bs, w1) \<Longrightarrow>
     privex_sockfd w1 = privex_sockfd w \<and> privex_epollfd w1 = privex_epollfd w \<and>
     privex_port w1 = privex_port w \<and> trace w1 = trace w @ [EvRead fd]"
  by (auto simp: sys_read_def Let_def emit_def consume_def split: if_splits)

lemma fwrite_stdout_frame:
  "fwrite_stdout ptr sz nmemb w = (n, w1) \<Longrightarrow>
     privex_sockfd w1 = privex_sockfd w \<and> privex_epollfd w1 = privex_epollfd w \<and>
     privex_port w1 = privex_port w"
  by (auto simp: fwrite_stdout_def Let_def emit_def consume_def split: if_splits)

lemma echo_data_body_inv:
  "handle_inv w \<Longrightarrow> handle_inv (snd (echo_data_body w))"
proof -
  assume inv: "handle_inv w"
  obtain n bs w1 where rd: "sys_read (privex_sockfd w) 8192 w = (n, bs, w1)"
    by (cases "sys_read (privex_sockfd w) 8192 w")
  obtain m w2 where fw: "fwrite_stdout bs (nat n) 1 w1 = (m, w2)"
    by (cases "fwrite_stdout bs (nat n) 1 w1")
  from inv sys_read_frame [OF rd] fwrite_stdout_frame [OF fw] show ?thesis
    by (simp add: echo_data_body_def Let_def rd fw [unfolded One_nat_def] handle_inv_def
        teardown_frame)
qed

lemma echo_data_inv:
  assumes "handle_inv w"
  shows "handle_inv (snd (echo_data w))"
proof (cases "privex_sockfd w < 0 \<or> privex_epollfd w < 0")
  case False
  with assms echo_data_body_inv show ?thesis by (simp add: echo_data_def)
next
  case True
  with assms have neg: "privex_epollfd w < 0"
    by (auto simp: handle_inv_def)
  note inv1 = setup_privex_server_inv [OF neg]
  with True echo_data_body_inv [OF inv1] show ?thesis
    by (simp add: echo_data_def split_beta handle_inv_def fprintf_stderr_def emit_def)
qed


lemma getline_frame:
  "getline w = (n, l, w1) \<Longrightarrow>
     privex_sockfd w1 = privex_sockfd w \<and> privex_epollfd w1 = privex_epollfd w \<and>
     privex_port w1 = privex_port w \<and> trace w1 = trace w \<and> stdin_end w1 = stdin_end w \<and>
     answers w1 = answers w"
  by (auto simp: getline_def split: list.splits)

lemma load_loop_induct [consumes 1, case_names stop no_line send]:
  assumes run: "load_loop res w = Some y"
    and stop: "\<And>res w. res \<noteq> EXIT_SUCCESS \<Longrightarrow> P res w (res, w)"
    and no_line: "\<And>w l w1. getline w = (-1, l, w1) \<Longrightarrow> P EXIT_SUCCESS w (EXIT_SUCCESS, w1)"
    and send: "\<And>w n l w1 r w2 y. getline w = (n, l, w1) \<Longrightarrow> n \<noteq> -1 \<Longrightarrow>
        tell_privex l (nat n) w1 = Some (r, w2) \<Longrightarrow> P r w2 y \<Longrightarrow> P EXIT_SUCCESS w y"
  shows "P res w y"
proof (rule load_loop.raw_induct [where P = P, OF _ run])
  fix loop :: "int \<Rightarrow> world \<Rightarrow> (int \<times> world) option"
  fix res w y
  assume IH: "\<And>res w y. loop res w = Some y \<Longrightarrow> P res w y"
  obtain n l w1 where gl: "getline w = (n, l, w1)"
    by (cases "getline w")
  assume "(if res = EXIT_SUCCESS
      then let (readlen, line, w1) = getline w
           in if readlen \<noteq> - 1
              then Option.bind (tell_privex line (nat readlen) w1) (\<lambda>(r, w2). loop r w2)
              else Some (res, w1)
      else Some (res, w)) = Some y"
  then consider
      (a) "res \<noteq> EXIT_SUCCESS" "y = (res, w)"
    | (b) "res = EXIT_SUCCESS" "n = -1" "y = (EXIT_SUCCESS, w1)"
    | (c) r w2 where "res = EXIT_SUCCESS" "n \<noteq> -1" "tell_privex l (nat n) w1 = Some (r, w2)"
          "loop r w2 = Some y"
    apply (simp only: gl Let_def split_conv)
    apply (cases "res = EXIT_SUCCESS"; cases "n = -1")
       apply (simp_all only: if_True if_False option.inject refl not_True_eq_False not_False_eq_True)
       apply (auto simp: bind_eq_Some_conv)
    done
  then show "P res w y"
  proof cases
    case a then show ?thesis using stop by simp
  next
    case b then show ?thesis using no_line [of w l w1] gl by simp
  next
    case c then show ?thesis using send [of w n l w1 r w2 y] gl IH [OF c(4)] by simp
  qed
qed

lemma load_loop_inv:
  assumes "load_loop res w = Some y"
  shows "handle_inv w \<longrightarrow> handle_inv (snd y)"
  using assms
proof (induction rule: load_loop_induct)
  case (stop res w)
  then show ?case by simp
next
  case (no_line w l w1)
  then show ?case using getline_frame [of w "-1" l w1] by (simp add: handle_inv_def)
next
  case (send w n l w1 r w2 y)
  from send(1) have "handle_inv w \<longrightarrow> handle_inv w1"
    using getline_frame [of w n l w1] by (simp add: handle_inv_def)
  with tell_privex_inv [OF send(3)] send(4) show ?case by simp
qed

lemma dump_loop_induct [consumes 1, case_names wait_error no_value failed echoed spurious]:
  assumes run: "dump_loop w = Some y"
    and wait_error: "\<And>w w1. sys_epoll_wait (privex_epollfd w) 1 w = (-1, w1) \<Longrightarrow>
        P w (Exit EXIT_FAILURE, fprintf_stderr ''Privex Error : error in client epoll_wait: %s'' w1)"
    and no_value: "\<And>w n w1 w2. sys_epoll_wait (privex_epollfd w) 1 w = (n, w1) \<Longrightarrow> 0 < n \<Longrightarrow>
        echo_data w1 = (None, w2) \<Longrightarrow> P w (Undefined, w2)"
    and failed: "\<And>w n w1 r w2. sys_epoll_wait (privex_epollfd w) 1 w = (n, w1) \<Longrightarrow> 0 < n \<Longrightarrow>
        echo_data w1 = (Some r, w2) \<Longrightarrow> r \<noteq> EXIT_SUCCESS \<Longrightarrow> P w (Exit EXIT_FAILURE, w2)"
    and echoed: "\<And>w n w1 w2 y. sys_epoll_wait (privex_epollfd w) 1 w = (n, w1) \<Longrightarrow> 0 < n \<Longrightarrow>
        echo_data w1 = (Some EXIT_SUCCESS, w2) \<Longrightarrow> P w2 y \<Longrightarrow> P w y"
    and spurious: "\<And>w n w1 y. sys_epoll_wait (privex_epollfd w) 1 w = (n, w1) \<Longrightarrow>
        n \<noteq> -1 \<Longrightarrow> \<not> 0 < n \<Longrightarrow> P w1 y \<Longrightarrow> P w y"
  shows "P w y"
proof (rule dump_loop.raw_induct [where P = P, OF _ run])
  fix loop :: "world \<Rightarrow> (outcome \<times> world) option"
  fix w y
  assume IH: "\<And>w y. loop w = Some y \<Longrightarrow> P w y"
  obtain n w1 where wt: "sys_epoll_wait (privex_epollfd w) 1 w = (n, w1)"
    by (cases "sys_epoll_wait (privex_epollfd w) 1 w")
  obtain v w2 where ed: "echo_data w1 = (v, w2)"
    by (cases "echo_data w1")
  assume "(let (nReadyFDs, w1) = sys_epoll_wait (privex_epollfd w) 1 w
      in if nReadyFDs = - 1
         then Some (Exit EXIT_FAILURE,
                fprintf_stderr ''Privex Error : error in client epoll_wait: %s'' w1)
         else if 0 < nReadyFDs
              then case echo_data w1 of (None, w2) \<Rightarrow> Some (Undefined, w2)
                   | (Some r, w2) \<Rightarrow>
                       if r \<noteq> EXIT_SUCCESS then Some (Exit EXIT_FAILURE, w2)
                       else loop w2
              else loop w1) = Some y"
  then consider
      (a) "n = -1"
          "y = (Exit EXIT_FAILURE, fprintf_stderr ''Privex Error : error in client epoll_wait: %s'' w1)"
    | (b) "0 < n" "v = None" "y = (Undefined, w2)"
    | (c) r where "0 < n" "v = Some r" "r \<noteq> EXIT_SUCCESS" "y = (Exit EXIT_FAILURE, w2)"
    | (d) "0 < n" "v = Some EXIT_SUCCESS" "loop w2 = Some y"
    | (e) "n \<noteq> -1" "\<not> 0 < n" "loop w1 = Some y"
    apply (simp only: wt ed Let_def split_conv)
    apply (cases "n = -1"; cases "0 < n"; cases v)
           apply (simp_all only: if_True if_False option.inject refl option.case)
           apply (auto split: if_splits)
    done
  then show "P w y"
  proof cases
    case a then show ?thesis using wait_error [of w w1] wt by simp
  next
    case b then show ?thesis using no_value [of w n w1 w2] wt ed by simp
  next
    case c then show ?thesis using failed [of w n w1 r w2] wt ed by simp
  next
    case d then show ?thesis using echoed [of w n w1 w2 y] wt ed IH [OF d(3)] by simp
  next
    case e then show ?thesis using spurious [of w n w1 y] wt IH [OF e(3)] by simp
  qed
qed

lemma handle_inv_cong:
  "privex_sockfd w' = privex_sockfd w \<Longrightarrow> privex_epollfd w' = privex_epollfd w \<Longrightarrow>
     handle_inv w' = handle_inv w"
  by (simp add: handle_inv_def)

lemma dump_loop_inv:
  assumes "dump_loop w = Some y"
  shows "handle_inv w \<longrightarrow> handle_inv (snd y)"
  using assms
proof (induction rule: dump_loop_induct)
  case (wait_error w w1)
  then show ?case using sys_epoll_wait_frame [of "privex_epollfd w" 1 w "-1" w1]
    by (simp add: handle_inv_def fprintf_stderr_def emit_def)
next
  case (no_value w n w1 w2)
  have "handle_inv w1 = handle_inv w"
    using sys_epoll_wait_frame [OF no_value(1)] by (intro handle_inv_cong) simp_all
  then show ?case
    using echo_data_inv [of w1] no_value(3) by simp
next
  case (failed w n w1 r w2)
  have "handle_inv w1 = handle_inv w"
    using sys_epoll_wait_frame [OF failed(1)] by (intro handle_inv_cong) simp_all
  then show ?case
    using echo_data_inv [of w1] failed(3) by simp
next
  case (echoed w n w1 w2 y)
  have "handle_inv w1 = handle_inv w"
    using sys_epoll_wait_frame [OF echoed(1)] by (intro handle_inv_cong) simp_all
  then show ?case
    using echo_data_inv [of w1] echoed(3,4) by simp
next
  case (spurious w n w1 y)
  have "handle_inv w1 = handle_inv w"
    using sys_epoll_wait_frame [OF spurious(1)] by (intro handle_inv_cong) simp_all
  then show ?case
    using spurious(4) by simp
qed

text \<open>
  Claim C2. In the state of a fresh process both handles are invalid. From a state in
  which the connection descriptor and the readiness handle are both valid or both
  invalid, every operation returns in such a state again, on each of its paths:
  \<^verbatim>\<open>setup_privex_client\<close> and \<^verbatim>\<open>setup_privex_server\<close> (which their only callers
  enter when a handle is invalid), \<^verbatim>\<open>tell_privex\<close> and \<^verbatim>\<open>echo_data\<close>, and with them
  \<^verbatim>\<open>load\<close> and \<^verbatim>\<open>dump\<close>, whose loops pass from one of these calls to the next.
\<close>

theorem handle_pair_invariant:
  "handle_inv (init_world K R ls e) \<and>
   (handle_inv w \<longrightarrow>
      (privex_sockfd w < 0 \<or> privex_epollfd w < 0 \<longrightarrow>
         handle_inv (snd (setup_privex_client w)) \<and> handle_inv (snd (setup_privex_server w))) \<and>
      (\<forall>sendBuff sendBuffLen r w'.
         tell_privex sendBuff sendBuffLen w = Some (r, w') \<longrightarrow> handle_inv w') \<and>
      handle_inv (snd (echo_data w)) \<and>
      (\<forall>port r w'. load port w = Some (r, w') \<longrightarrow> handle_inv w') \<and>
      (\<forall>port r w'. dump port w = Some (r, w') \<longrightarrow> handle_inv w'))"
proof (intro conjI impI allI)
  show "handle_inv (init_world K R ls e)"
    by (simp add: handle_inv_def init_world_def)
next
  assume "handle_inv w" and "privex_sockfd w < 0 \<or> privex_epollfd w < 0"
  then have neg: "privex_epollfd w < 0"
    by (auto simp: handle_inv_def)
  from neg show "handle_inv (snd (setup_privex_client w))"
    by (rule setup_privex_client_inv)
  from neg show "handle_inv (snd (setup_privex_server w))"
    by (rule setup_privex_server_inv)
next
  fix sendBuff sendBuffLen r w'
  assume "handle_inv w" and "tell_privex sendBuff sendBuffLen w = Some (r, w')"
  from tell_privex_inv [OF this(2,1)] show "handle_inv w'" by simp
next
  assume "handle_inv w"
  then show "handle_inv (snd (echo_data w))" by (rule echo_data_inv)
next
  fix port r w'
  assume "handle_inv w" and "load port w = Some (r, w')"
  moreover have "handle_inv (w\<lparr>privex_port := port\<rparr>) = handle_inv w"
    by (simp add: handle_inv_def)
  ultimately show "handle_inv w'"
    using load_loop_inv [of EXIT_SUCCESS "w\<lparr>privex_port := port\<rparr>" "(r, w')"]
    by (simp add: load_def)
next
  fix port r w'
  assume "handle_inv w" and "dump port w = Some (r, w')"
  moreover have "handle_inv (w\<lparr>privex_port := port\<rparr>) = handle_inv w"
    by (simp add: handle_inv_def)
  ultimately show "handle_inv w'"
    using dump_loop_inv [of "w\<lparr>privex_port := port\<rparr>" "(r, w')"]
    by (simp add: dump_def)
qed


theorem handle_pair_invariant_witness:
  "handle_inv (init_world friendly_kernel silent_peer [''hi''] EndOfFile) \<and>
   handle_inv (snd (setup_privex_client (init_world friendly_kernel silent_peer [''hi''] EndOfFile))) \<and>
   handle_inv (snd (setup_privex_server (init_world friendly_kernel silent_peer [''hi''] EndOfFile))) \<and>
   (\<exists>r w'. tell_privex ''hello'' 5 (init_world friendly_kernel silent_peer [''hi''] EndOfFile)
             = Some (r, w') \<and> handle_inv w') \<and>
   handle_inv (snd (echo_data (init_world friendly_kernel silent_peer [''hi''] EndOfFile))) \<and>
   (\<exists>r w'. load 9000 (init_world friendly_kernel silent_peer [''hi''] EndOfFile)
             = Some (r, w') \<and> handle_inv w') \<and>
   (\<exists>r w'. dump 9000 (init_world friendly_kernel silent_peer [''hi''] EndOfFile)
             = Some (r, w') \<and> handle_inv w')"
proof -
  let ?w = "init_world friendly_kernel silent_peer [''hi''] EndOfFile"
  note inv = handle_pair_invariant [of friendly_kernel silent_peer "[''hi'']" EndOfFile ?w]
  have neg: "privex_sockfd ?w < 0"
    by (simp add: init_world_def)
  have "map_option fst (tell_privex ''hello'' 5 ?w) = Some EXIT_SUCCESS"
    by code_simp
  then obtain w1 where t: "tell_privex ''hello'' 5 ?w = Some (EXIT_SUCCESS, w1)"
    by (cases "tell_privex ''hello'' 5 ?w") auto
  have "map_option fst (load 9000 ?w) = Some EXIT_SUCCESS"
    by code_simp
  then obtain w2 where l: "load 9000 ?w = Some (EXIT_SUCCESS, w2)"
    by (cases "load 9000 ?w") auto
  have "map_option fst (dump 9000 ?w) = Some (Exit EXIT_FAILURE)"
    by code_simp
  then obtain w3 where d: "dump 9000 ?w = Some (Exit EXIT_FAILURE, w3)"
    by (cases "dump 9000 ?w") auto
  from inv have a: "handle_inv ?w" by (rule conjunct1)
  from inv [THEN conjunct2, THEN mp, OF a] have b: "(privex_sockfd ?w < 0 \<or> privex_epollfd ?w < 0 \<longrightarrow>
         handle_inv (snd (setup_privex_client ?w)) \<and> handle_inv (snd (setup_privex_server ?w))) \<and>
      (\<forall>sendBuff sendBuffLen r w'.
         tell_privex sendBuff sendBuffLen ?w = Some (r, w') \<longrightarrow> handle_inv w') \<and>
      handle_inv (snd (echo_data ?w)) \<and>
      (\<forall>port r w'. load port ?w = Some (r, w') \<longrightarrow> handle_inv w') \<and>
      (\<forall>port r w'. dump port ?w = Some (r, w') \<longrightarrow> handle_inv w')"
    .
  from b neg have c: "handle_inv (snd (setup_privex_client ?w))"
    "handle_inv (snd (setup_privex_server ?w))" by blast+
  from b t have "handle_inv w1" by blast
  moreover from b l have "handle_inv w2" by blast
  moreover from b d have "handle_inv w3" by blast
  moreover from b have "handle_inv (snd (echo_data ?w))" by blast
  ultimately show ?thesis using a c t l d by blast
qed

subsection \<open>Claims C6 and C10: the line source\<close>

lemma tell_privex_loop_frame:
  assumes "tell_privex_loop b l r w = Some y"
  shows "privex_port (snd y) = privex_port w \<and> stdin_lines (snd y) = stdin_lines w \<and>
         stdin_end (snd y) = stdin_end w \<and> stdin_indicator (snd y) = stdin_indicator w \<and>
         (\<exists>evs. trace (snd y) = trace w @ evs)"
  using assms
proof (induction rule: tell_privex_loop_induct)
  case (finished w)
  then show ?case by simp
next
  case (wait_error r w w1)
  then show ?case
    using sys_epoll_wait_frame [OF wait_error(2)] by (simp add: teardown_frame)
next
  case (write_error r w n w1 k w2)
  have "trace w2 = trace w1 @ [EvWrite (privex_sockfd w1) []]"
    using write_error(4,5) by (auto simp: sys_write_def Let_def emit_def consume_def split: if_splits)
  then show ?case
    using sys_epoll_wait_frame [OF write_error(2)] sys_write_frame [OF write_error(4)]
    by (simp add: teardown_frame)
next
  case (written r w n w1 k w2 y)
  then show ?case
    using sys_epoll_wait_frame [OF written(2)] sys_write_frame [OF written(4)]
      sys_write_result [OF written(4,5)]
    by auto
next
  case (spurious r w n w1 y)
  then show ?case
    using sys_epoll_wait_frame [OF spurious(2)] by auto
qed

lemma tell_privex_frame:
  assumes "tell_privex b l w = Some y"
  shows "privex_port (snd y) = privex_port w \<and> stdin_lines (snd y) = stdin_lines w \<and>
         stdin_end (snd y) = stdin_end w \<and> stdin_indicator (snd y) = stdin_indicator w \<and>
         (\<exists>evs. trace (snd y) = trace w @ evs)"
proof (cases "privex_sockfd w < 0 \<or> privex_epollfd w < 0")
  case False
  with assms tell_privex_loop_frame [of b l l w y] show ?thesis
    by (simp add: tell_privex_def)
next
  case True
  obtain evs where evs: "trace (snd (setup_privex_client w)) = trace w @ EvSocket # evs"
    using setup_privex_client_trace by blast
  note fr = setup_privex_client_frame [of w]
  show ?thesis
  proof (cases "fst (setup_privex_client w) \<noteq> EXIT_SUCCESS")
    case True
    with assms \<open>privex_sockfd w < 0 \<or> privex_epollfd w < 0\<close> fr evs show ?thesis
      by (auto simp: tell_privex_def split_beta fprintf_stderr_def emit_def)
  next
    case False
    with assms \<open>privex_sockfd w < 0 \<or> privex_epollfd w < 0\<close>
    have "tell_privex_loop b l l (snd (setup_privex_client w)) = Some y"
      by (simp add: tell_privex_def split_beta)
    from tell_privex_loop_frame [OF this] fr evs show ?thesis by auto
  qed
qed

lemma tell_privex_connects_first:
  assumes "tell_privex b l w = Some y" and "privex_sockfd w < 0 \<or> privex_epollfd w < 0"
  shows "\<exists>evs. trace (snd y) = trace w @ EvSocket # evs"
proof -
  obtain evs where evs: "trace (snd (setup_privex_client w)) = trace w @ EvSocket # evs"
    using setup_privex_client_trace by blast
  show ?thesis
  proof (cases "fst (setup_privex_client w) \<noteq> EXIT_SUCCESS")
    case True
    with assms evs show ?thesis
      by (auto simp: tell_privex_def split_beta fprintf_stderr_def emit_def)
  next
    case False
    with assms
    have "tell_privex_loop b l l (snd (setup_privex_client w)) = Some y"
      by (simp add: tell_privex_def split_beta)
    from tell_privex_loop_frame [OF this] evs show ?thesis by auto
  qed
qed

lemma load_loop_trace:
  assumes "load_loop res w = Some y"
  shows "\<exists>evs. trace (snd y) = trace w @ evs"
  using assms
proof (induction rule: load_loop_induct)
  case (stop res w)
  then show ?case by simp
next
  case (no_line w l w1)
  then show ?case using getline_frame [OF no_line(1)] by simp
next
  case (send w n l w1 r w2 y)
  then show ?case
    using getline_frame [OF send(1)] tell_privex_frame [OF send(3)] by auto
qed

lemma load_loop_no_line:
  assumes "stdin_lines w = []"
  shows "load_loop EXIT_SUCCESS w = Some (EXIT_SUCCESS, w\<lparr>stdin_indicator := Some (stdin_end w)\<rparr>)"
  using assms by (subst load_loop.simps) (simp add: getline_def)

lemma load_loop_line:
  assumes "stdin_lines w = l # ls"
  shows "load_loop EXIT_SUCCESS w =
           Option.bind (tell_privex l (length l) (w\<lparr>stdin_lines := ls\<rparr>)) (\<lambda>(r, w2). load_loop r w2)"
  using assms by (subst load_loop.simps) (simp add: getline_def)

text \<open>
  Claim C6. With no line on standard input, \<^verbatim>\<open>load\<close> returns \<^verbatim>\<open>EXIT_SUCCESS\<close> in a
  state that differs from the one it started in only by the stored port and the indicator
  of the input stream: the trace is unchanged, so no call to \<^verbatim>\<open>socket\<close>,
  \<^verbatim>\<open>connect\<close>, \<^verbatim>\<open>epoll_create\<close> or \<^verbatim>\<open>epoll_ctl\<close> was made. With a first line and an
  invalid handle, the first call a returning run makes is \<^verbatim>\<open>socket\<close>.
\<close>

theorem load_connects_lazily:
  "(stdin_lines w = [] \<longrightarrow>
      load port w =
        Some (EXIT_SUCCESS, w\<lparr>privex_port := port, stdin_indicator := Some (stdin_end w)\<rparr>)) \<and>
   (\<forall>l ls r w'. stdin_lines w = l # ls \<and> (privex_sockfd w < 0 \<or> privex_epollfd w < 0) \<and>
       load port w = Some (r, w') \<longrightarrow> (\<exists>evs. trace w' = trace w @ EvSocket # evs))"
proof (intro conjI impI allI)
  assume "stdin_lines w = []"
  then show "load port w =
      Some (EXIT_SUCCESS, w\<lparr>privex_port := port, stdin_indicator := Some (stdin_end w)\<rparr>)"
    using load_loop_no_line [of "w\<lparr>privex_port := port\<rparr>"] by (simp add: load_def)
next
  fix l ls r w'
  assume a: "stdin_lines w = l # ls \<and> (privex_sockfd w < 0 \<or> privex_epollfd w < 0) \<and>
       load port w = Some (r, w')"
  let ?w1 = "w\<lparr>privex_port := port, stdin_lines := ls\<rparr>"
  from a have "Option.bind (tell_privex l (length l) ?w1) (\<lambda>(r, w2). load_loop r w2) = Some (r, w')"
    using load_loop_line [of "w\<lparr>privex_port := port\<rparr>" l ls] by (simp add: load_def)
  then obtain r1 w2 where t: "tell_privex l (length l) ?w1 = Some (r1, w2)"
    and rest: "load_loop r1 w2 = Some (r, w')"
    by (auto simp: bind_eq_Some_conv)
  from a tell_privex_connects_first [OF t] obtain evs1 where
    "trace w2 = trace w @ EvSocket # evs1" by auto
  moreover from load_loop_trace [OF rest] obtain evs2 where "trace w' = trace w2 @ evs2"
    by auto
  ultimately show "\<exists>evs. trace w' = trace w @ EvSocket # evs" by simp
qed


theorem load_connects_lazily_witness:
  "load 9000 (init_world friendly_kernel silent_peer [] EndOfFile) =
     Some (EXIT_SUCCESS,
       (init_world friendly_kernel silent_peer [] EndOfFile)
         \<lparr>privex_port := 9000, stdin_indicator := Some EndOfFile\<rparr>) \<and>
   (\<exists>r w' evs. load 9000 (init_world friendly_kernel silent_peer [''hi''] EndOfFile) = Some (r, w') \<and>
      trace w' = EvSocket # evs)"
proof -
  let ?w0 = "init_world friendly_kernel silent_peer [] EndOfFile"
  let ?w1 = "init_world friendly_kernel silent_peer [''hi''] EndOfFile"
  have "load 9000 ?w0 =
      Some (EXIT_SUCCESS, ?w0\<lparr>privex_port := 9000, stdin_indicator := Some EndOfFile\<rparr>)"
    using load_connects_lazily [of ?w0 9000] by (simp add: init_world_def)
  moreover have "map_option fst (load 9000 ?w1) = Some EXIT_SUCCESS"
    by code_simp
  then obtain w' where run: "load 9000 ?w1 = Some (EXIT_SUCCESS, w')"
    by (cases "load 9000 ?w1") auto
  have "\<exists>evs. trace w' = trace ?w1 @ EvSocket # evs"
    using load_connects_lazily [of ?w1 9000, THEN conjunct2, rule_format, of "''hi''" "[]" EXIT_SUCCESS w']
      run by (simp add: init_world_def)
  then have "\<exists>evs. trace w' = EvSocket # evs"
    by (simp add: init_world_def)
  ultimately show ?thesis using run by blast
qed

lemma getline_no_line:
  assumes "getline w = (-1, l, w1)"
  shows "w1 = w\<lparr>stdin_indicator := Some (stdin_end w)\<rparr>"
  using assms by (auto simp: getline_def split: list.splits)

lemma getline_line:
  assumes "getline w = (n, l, w1)" and "n \<noteq> -1"
  shows "stdin_indicator w1 = stdin_indicator w \<and> stdin_end w1 = stdin_end w"
  using assms by (auto simp: getline_def split: list.splits)

lemma load_loop_result:
  assumes "load_loop res w = Some y"
  shows "stdin_end (snd y) = stdin_end w \<and>
         (stdin_indicator w = None \<longrightarrow>
            (if res = EXIT_SUCCESS
             then (stdin_indicator (snd y) = Some (stdin_end w)) = (fst y = EXIT_SUCCESS)
             else fst y = res \<and> stdin_indicator (snd y) = None))"
  using assms
proof (induction rule: load_loop_induct)
  case (stop res w)
  then show ?case by simp
next
  case (no_line w l w1)
  then show ?case using getline_no_line [OF no_line(1)] by simp
next
  case (send w n l w1 r w2 y)
  note g = getline_line [OF send(1,2)]
  note t = tell_privex_frame [OF send(3)]
  from send(4) g t show ?case
    by (cases "r = EXIT_SUCCESS") auto
qed

lemma load_loop_sends_ok:
  assumes "stdin_lines w = ls" and "sends_ok ls w = Some w1"
  shows "load_loop EXIT_SUCCESS w =
           Some (EXIT_SUCCESS, w1\<lparr>stdin_indicator := Some (stdin_end w)\<rparr>)"
  using assms
proof (induction ls arbitrary: w)
  case Nil
  then show ?case using load_loop_no_line [of w] by simp
next
  case (Cons l ls)
  from Cons.prems(2) obtain w2 where
    t: "tell_privex l (length l) (w\<lparr>stdin_lines := ls\<rparr>) = Some (EXIT_SUCCESS, w2)"
    and rest: "sends_ok ls w2 = Some w1"
    by (auto split: option.splits if_splits)
  from tell_privex_frame [OF t] have fr: "stdin_lines w2 = ls" "stdin_end w2 = stdin_end w"
    by simp_all
  have "load_loop EXIT_SUCCESS w = load_loop EXIT_SUCCESS w2"
    using load_loop_line [OF Cons.prems(1)] t by simp
  with Cons.IH [OF fr(1) rest] fr(2) show ?case by simp
qed

text \<open>
  Claim C10. Let the indicator of standard input be clear when \<^verbatim>\<open>load\<close> starts, and
  let the input end in either way, at the end of the file or by a read error
  (\<open>stdin_end w\<close> is any of the two). If every line of the input is sent with success,
  \<^verbatim>\<open>load\<close> returns \<^verbatim>\<open>EXIT_SUCCESS\<close>, with the indicator of the stream set to the way
  the input ended. And whenever \<^verbatim>\<open>load\<close> returns, its result is \<^verbatim>\<open>EXIT_SUCCESS\<close>
  exactly when \<^verbatim>\<open>getline\<close> has reported the end of the input, for whichever of the two
  reasons: a result other than success never stems from the input stream, only from a
  send that failed before the input ended.
\<close>

theorem load_succeeds_on_read_error:
  assumes "stdin_indicator w = None"
  shows "(\<forall>w1. sends_ok (stdin_lines w) (w\<lparr>privex_port := port\<rparr>) = Some w1 \<longrightarrow>
            load port w = Some (EXIT_SUCCESS, w1\<lparr>stdin_indicator := Some (stdin_end w)\<rparr>)) \<and>
         (\<forall>r w'. load port w = Some (r, w') \<longrightarrow>
            (stdin_indicator w' = Some (stdin_end w)) = (r = EXIT_SUCCESS))"
proof (intro conjI impI allI)
  fix w1
  assume "sends_ok (stdin_lines w) (w\<lparr>privex_port := port\<rparr>) = Some w1"
  then show "load port w = Some (EXIT_SUCCESS, w1\<lparr>stdin_indicator := Some (stdin_end w)\<rparr>)"
    using load_loop_sends_ok [of "w\<lparr>privex_port := port\<rparr>" "stdin_lines w" w1]
    by (simp add: load_def)
next
  fix r w'
  assume "load port w = Some (r, w')"
  then have "load_loop EXIT_SUCCESS (w\<lparr>privex_port := port\<rparr>) = Some (r, w')"
    by (simp add: load_def)
  from load_loop_result [OF this] assms
  show "(stdin_indicator w' = Some (stdin_end w)) = (r = EXIT_SUCCESS)"
    by simp
qed

theorem load_succeeds_on_read_error_witness:
  "stdin_indicator (init_world friendly_kernel silent_peer [''hi''] ReadError) = None \<and>
   (\<exists>w1. sends_ok [''hi''] ((init_world friendly_kernel silent_peer [''hi''] ReadError)
                               \<lparr>privex_port := 9000\<rparr>) = Some w1 \<and>
      load 9000 (init_world friendly_kernel silent_peer [''hi''] ReadError) =
        Some (EXIT_SUCCESS, w1\<lparr>stdin_indicator := Some ReadError\<rparr>)) \<and>
   (\<exists>w'. load 9000 (init_world friendly_kernel silent_peer [''hi''] ReadError)
            = Some (EXIT_SUCCESS, w') \<and>
      stdin_indicator w' = Some ReadError)"
proof -
  let ?w = "init_world friendly_kernel silent_peer [''hi''] ReadError"
  have i: "stdin_indicator ?w = None" and l: "stdin_lines ?w = [''hi'']"
    and e: "stdin_end ?w = ReadError"
    by (simp_all add: init_world_def)
  note inst = load_succeeds_on_read_error [OF i, of 9000]
  have "sends_ok [''hi''] (?w\<lparr>privex_port := 9000\<rparr>) \<noteq> None"
    by code_simp
  then obtain w1 where s: "sends_ok [''hi''] (?w\<lparr>privex_port := 9000\<rparr>) = Some w1"
    by auto
  with inst l e have run: "load 9000 ?w = Some (EXIT_SUCCESS, w1\<lparr>stdin_indicator := Some ReadError\<rparr>)"
    by simp
  with inst e have "stdin_indicator (w1\<lparr>stdin_indicator := Some ReadError\<rparr>) = Some ReadError"
    by simp
  with i s run show ?thesis by blast
qed

subsection \<open>Claim C9: when the send loop ends\<close>

lemma sys_epoll_wait_answers:
  assumes "sys_epoll_wait epfd m w = (n, w1)"
  shows "answers w1 WRITE = answers w WRITE \<and>
         (\<forall>i. answers w1 EPOLL_WAIT i = answers w EPOLL_WAIT (Suc i)) \<and>
         n = (if epfd < 0 \<or> answers w EPOLL_WAIT 0 < 0 then -1 else min (answers w EPOLL_WAIT 0) m)"
  using assms by (auto simp: sys_epoll_wait_def Let_def emit_def consume_def answer_def)

lemma sys_write_answers:
  assumes "sys_write fd buf count w = (k, w1)"
  shows "answers w1 EPOLL_WAIT = answers w EPOLL_WAIT \<and>
         (\<forall>i. answers w1 WRITE i = answers w WRITE (Suc i)) \<and>
         k = (if fd < 0 \<or> answers w WRITE 0 < 0 then -1 else int (min (nat (answers w WRITE 0)) count))"
  using assms
  by (auto simp: sys_write_def Let_def emit_def consume_def answer_def split: if_splits)

lemma tell_privex_loop_terminates:
  assumes "\<forall>i. answers w WRITE i \<noteq> 0" and "\<forall>i\<ge>N. answers w EPOLL_WAIT i \<noteq> 0"
  shows "\<exists>y. tell_privex_loop b l r w = Some y"
  using assms
proof (induction "N + r" arbitrary: N r w rule: less_induct)
  case less
  show ?case
  proof (cases "0 < r")
    case False
    then show ?thesis by (subst tell_privex_loop.simps) simp
  next
    case True
    obtain n w1 where wt: "sys_epoll_wait (privex_epollfd w) 1 w = (n, w1)"
      by (cases "sys_epoll_wait (privex_epollfd w) 1 w")
    note a1 = sys_epoll_wait_answers [OF wt]
    obtain k w2 where wr: "sys_write (privex_sockfd w1) (drop (l - r) b) r w1 = (k, w2)"
      by (cases "sys_write (privex_sockfd w1) (drop (l - r) b) r w1")
    note a2 = sys_write_answers [OF wr]
    have unfold: "tell_privex_loop b l r w =
        (if n = -1 then
           Some (EXIT_FAILURE, teardown ''Privex Error : error in client epoll_wait: %s'' w1)
         else if 0 < n then
           (if k < 0 then
              Some (EXIT_FAILURE, teardown ''Privex Error : Could not write to the socket: %s'' w2)
            else tell_privex_loop b l (r - nat k) w2)
         else tell_privex_loop b l r w1)"
      using True by (subst tell_privex_loop.simps) (simp add: wt wr)
    have "n = -1 \<or> n = 0 \<or> n = 1"
      using a1 by (auto simp: min_def split: if_splits)
    then consider (err) "n = -1" | (werr) "0 < n" "k < 0" | (wr) "0 < n" "0 \<le> k" | (spur) "n = 0"
      by (cases "k < 0") auto
    then show ?thesis
    proof cases
      case err
      then show ?thesis by (simp add: unfold)
    next
      case werr
      then show ?thesis by (simp add: unfold)
    next
      case wr
      have "answers w1 WRITE 0 \<noteq> 0"
        using a1 less.prems(1) by simp
      with wr(2) a2 True have "0 < nat k"
        by (auto split: if_splits)
      with True have "N + (r - nat k) < N + r"
        by simp
      moreover have "\<forall>i. answers w2 WRITE i \<noteq> 0"
        using a1 a2 less.prems(1) by simp
      moreover have "\<forall>i\<ge>N. answers w2 EPOLL_WAIT i \<noteq> 0"
        using a1 a2 less.prems(2) by simp
      ultimately have "\<exists>y. tell_privex_loop b l (r - nat k) w2 = Some y"
        by (rule less.hyps)
      with wr show ?thesis by (simp add: unfold)
    next
      case spur
      with a1 have "answers w EPOLL_WAIT 0 = 0"
        by (auto split: if_splits)
      with less.prems(2) have "0 < N"
        by (cases N) auto
      then have "(N - 1) + r < N + r"
        by simp
      moreover have "\<forall>i. answers w1 WRITE i \<noteq> 0"
        using a1 less.prems(1) by simp
      moreover have "\<forall>i\<ge>N - 1. answers w1 EPOLL_WAIT i \<noteq> 0"
        using a1 less.prems(2) \<open>0 < N\<close> by auto
      ultimately have "\<exists>y. tell_privex_loop b l r w1 = Some y"
        by (rule less.hyps)
      with spur show ?thesis by (simp add: unfold)
    qed
  qed
qed

lemma tell_privex_loop_spins:
  assumes "tell_privex_loop b l r w = Some y"
  shows "\<not> (0 < r \<and> 0 \<le> privex_epollfd w \<and> (\<forall>i. answers w EPOLL_WAIT i = 0))"
  using assms
proof (induction rule: tell_privex_loop_induct)
  case (finished w)
  then show ?case by simp
next
  case (wait_error r w w1)
  note a1 = sys_epoll_wait_answers [OF wait_error(2)]
  show ?case
  proof
    assume "0 < r \<and> 0 \<le> privex_epollfd w \<and> (\<forall>i. answers w EPOLL_WAIT i = 0)"
    then have "0 \<le> privex_epollfd w" "answers w EPOLL_WAIT 0 = 0" by simp_all
    with a1 show False by simp
  qed
next
  case (write_error r w n w1 k w2)
  note a1 = sys_epoll_wait_answers [OF write_error(2)]
  show ?case
  proof
    assume "0 < r \<and> 0 \<le> privex_epollfd w \<and> (\<forall>i. answers w EPOLL_WAIT i = 0)"
    then have "0 \<le> privex_epollfd w" "answers w EPOLL_WAIT 0 = 0" by simp_all
    with a1 write_error(3) show False by simp
  qed
next
  case (written r w n w1 k w2 y)
  note a1 = sys_epoll_wait_answers [OF written(2)]
  show ?case
  proof
    assume "0 < r \<and> 0 \<le> privex_epollfd w \<and> (\<forall>i. answers w EPOLL_WAIT i = 0)"
    then have "0 \<le> privex_epollfd w" "answers w EPOLL_WAIT 0 = 0" by simp_all
    with a1 written(3) show False by simp
  qed
next
  case (spurious r w n w1 y)
  note a1 = sys_epoll_wait_answers [OF spurious(2)]
  note f1 = sys_epoll_wait_frame [OF spurious(2)]
  show ?case
  proof
    assume h: "0 < r \<and> 0 \<le> privex_epollfd w \<and> (\<forall>i. answers w EPOLL_WAIT i = 0)"
    with a1 f1 have "0 < r \<and> 0 \<le> privex_epollfd w1 \<and> (\<forall>i. answers w1 EPOLL_WAIT i = 0)"
      by simp
    with spurious(5) show False by simp
  qed
qed

lemma tell_privex_loop_stalls:
  assumes "tell_privex_loop b l r w = Some y"
  shows "\<not> (0 < r \<and> 0 \<le> privex_sockfd w \<and> 0 \<le> privex_epollfd w \<and>
            (\<forall>i. 0 < answers w EPOLL_WAIT i) \<and> (\<forall>i. answers w WRITE i = 0))"
  using assms
proof (induction rule: tell_privex_loop_induct)
  case (finished w)
  then show ?case by simp
next
  case (wait_error r w w1)
  note a1 = sys_epoll_wait_answers [OF wait_error(2)]
  show ?case
  proof
    assume "0 < r \<and> 0 \<le> privex_sockfd w \<and> 0 \<le> privex_epollfd w \<and>
            (\<forall>i. 0 < answers w EPOLL_WAIT i) \<and> (\<forall>i. answers w WRITE i = 0)"
    then have "0 \<le> privex_epollfd w" "0 < answers w EPOLL_WAIT 0" by simp_all
    with a1 show False by (simp add: min_def split: if_splits)
  qed
next
  case (write_error r w n w1 k w2)
  note f1 = sys_epoll_wait_frame [OF write_error(2)]
  note a1 = sys_epoll_wait_answers [OF write_error(2)]
  note a2 = sys_write_answers [OF write_error(4)]
  show ?case
  proof
    assume "0 < r \<and> 0 \<le> privex_sockfd w \<and> 0 \<le> privex_epollfd w \<and>
            (\<forall>i. 0 < answers w EPOLL_WAIT i) \<and> (\<forall>i. answers w WRITE i = 0)"
    then have "0 \<le> privex_sockfd w" "answers w WRITE 0 = 0" by simp_all
    with a1 a2 f1 write_error(5) show False by simp
  qed
next
  case (written r w n w1 k w2 y)
  note a1 = sys_epoll_wait_answers [OF written(2)]
  note f1 = sys_epoll_wait_frame [OF written(2)]
  note a2 = sys_write_answers [OF written(4)]
  note f2 = sys_write_frame [OF written(4)]
  show ?case
  proof
    assume h: "0 < r \<and> 0 \<le> privex_sockfd w \<and> 0 \<le> privex_epollfd w \<and>
            (\<forall>i. 0 < answers w EPOLL_WAIT i) \<and> (\<forall>i. answers w WRITE i = 0)"
    then have "0 \<le> privex_sockfd w" "answers w WRITE 0 = 0" by simp_all
    with a1 a2 f1 have "k = 0" by simp
    moreover from h a1 a2 f1 f2 have "0 \<le> privex_sockfd w2 \<and> 0 \<le> privex_epollfd w2 \<and>
            (\<forall>i. 0 < answers w2 EPOLL_WAIT i) \<and> (\<forall>i. answers w2 WRITE i = 0)"
      by simp
    ultimately show False using written(6) h by simp
  qed
next
  case (spurious r w n w1 y)
  note a1 = sys_epoll_wait_answers [OF spurious(2)]
  show ?case
  proof
    assume "0 < r \<and> 0 \<le> privex_sockfd w \<and> 0 \<le> privex_epollfd w \<and>
            (\<forall>i. 0 < answers w EPOLL_WAIT i) \<and> (\<forall>i. answers w WRITE i = 0)"
    then have "0 \<le> privex_epollfd w" "0 < answers w EPOLL_WAIT 0" by simp_all
    with a1 spurious(3,4) show False by (simp add: min_def split: if_splits)
  qed
qed


text \<open>
  Claim C9 as stated: the send loop ends provided every \<^verbatim>\<open>write\<close> accepts at least one
  byte. It fails: on an operating system whose writes would each accept two bytes, but
  whose waits all come back with no descriptor ready, no \<^verbatim>\<open>write\<close> is ever made and
  sending a one-byte record never ends.
\<close>

theorem tell_privex_spurious_wakes_counterexample:
  "(\<forall>i. 0 < answers (init_world spurious_kernel silent_peer [] EndOfFile) WRITE i) \<and>
   tell_privex ''a'' 1 (init_world spurious_kernel silent_peer [] EndOfFile) = None"
proof
  show "\<forall>i. 0 < answers (init_world spurious_kernel silent_peer [] EndOfFile) WRITE i"
    by (simp add: init_world_def spurious_kernel_def friendly_kernel_def)
next
  let ?w = "init_world spurious_kernel silent_peer [] EndOfFile"
  let ?w1 = "snd (setup_privex_client ?w)"
  have st: "fst (setup_privex_client ?w) = EXIT_SUCCESS" "0 \<le> privex_epollfd ?w1"
    by (simp_all add: setup_privex_client_def Let_def split_beta sys_defs init_world_def
        spurious_kernel_def friendly_kernel_def EXIT_SUCCESS_def)
  have waits: "\<forall>i. answers ?w1 EPOLL_WAIT i = 0"
    using setup_privex_client_frame [of ?w] by (simp add: init_world_def spurious_kernel_def)
  have unfold: "tell_privex ''a'' 1 ?w = tell_privex_loop ''a'' 1 1 ?w1"
    using st(1) by (simp add: tell_privex_def split_beta init_world_def)
  show "tell_privex ''a'' 1 ?w = None"
  proof (cases "tell_privex_loop ''a'' 1 1 ?w1")
    case None
    with unfold show ?thesis by simp
  next
    case (Some y)
    from tell_privex_loop_spins [OF Some] st(2) waits show ?thesis by simp
  qed
qed

text \<open>
  Claim C9, amended. The send ends whenever no \<^verbatim>\<open>write\<close> answers \<open>0\<close> (each accepts at
  least one byte, or fails) and, from some wait on, no wait answers \<open>0\<close>. A \<^verbatim>\<open>write\<close>
  that accepts no byte leaves the remaining count as it was: with a valid handle, a
  record that is not empty, waits that all report a ready descriptor and writes that all
  accept nothing, the send never ends.
\<close>

theorem tell_privex_terminates:
  "((\<forall>i. answers w WRITE i \<noteq> 0) \<and> (\<forall>i\<ge>N. answers w EPOLL_WAIT i \<noteq> 0) \<longrightarrow>
      (\<exists>y. tell_privex sendBuff sendBuffLen w = Some y)) \<and>
   (0 < sendBuffLen \<and> 0 \<le> privex_sockfd w \<and> 0 \<le> privex_epollfd w \<and>
    (\<forall>i. 0 < answers w EPOLL_WAIT i) \<and> (\<forall>i. answers w WRITE i = 0) \<longrightarrow>
      tell_privex sendBuff sendBuffLen w = None)"
proof (intro conjI impI)
  assume h: "(\<forall>i. answers w WRITE i \<noteq> 0) \<and> (\<forall>i\<ge>N. answers w EPOLL_WAIT i \<noteq> 0)"
  show "\<exists>y. tell_privex sendBuff sendBuffLen w = Some y"
  proof (cases "privex_sockfd w < 0 \<or> privex_epollfd w < 0")
    case False
    with h tell_privex_loop_terminates [of w N sendBuff sendBuffLen sendBuffLen] show ?thesis
      by (simp add: tell_privex_def)
  next
    case True
    let ?w1 = "snd (setup_privex_client w)"
    from h setup_privex_client_frame [of w]
    have "\<forall>i. answers ?w1 WRITE i \<noteq> 0" and "\<forall>i\<ge>N. answers ?w1 EPOLL_WAIT i \<noteq> 0"
      by simp_all
    then have "\<exists>y. tell_privex_loop sendBuff sendBuffLen sendBuffLen ?w1 = Some y"
      by (rule tell_privex_loop_terminates)
    with True show ?thesis
      by (simp add: tell_privex_def split_beta)
  qed
next
  assume h: "0 < sendBuffLen \<and> 0 \<le> privex_sockfd w \<and> 0 \<le> privex_epollfd w \<and>
    (\<forall>i. 0 < answers w EPOLL_WAIT i) \<and> (\<forall>i. answers w WRITE i = 0)"
  then have unfold: "tell_privex sendBuff sendBuffLen w =
      tell_privex_loop sendBuff sendBuffLen sendBuffLen w"
    by (simp add: tell_privex_def)
  show "tell_privex sendBuff sendBuffLen w = None"
  proof (cases "tell_privex_loop sendBuff sendBuffLen sendBuffLen w")
    case None
    with unfold show ?thesis by simp
  next
    case (Some y)
    from tell_privex_loop_stalls [OF Some] h show ?thesis by simp
  qed
qed

theorem tell_privex_terminates_witness:
  "(\<forall>i. answers (init_world sluggish_kernel silent_peer [] EndOfFile) WRITE i \<noteq> 0) \<and>
   (\<forall>i. answers (init_world sluggish_kernel silent_peer [] EndOfFile) EPOLL_WAIT (Suc i) \<noteq> 0) \<and>
   answers (init_world sluggish_kernel silent_peer [] EndOfFile) EPOLL_WAIT 0 = 0 \<and>
   (\<exists>y. tell_privex ''hello'' 5 (init_world sluggish_kernel silent_peer [] EndOfFile) = Some y) \<and>
   tell_privex ''a'' 1
     ((init_world stalled_kernel silent_peer [] EndOfFile)\<lparr>privex_sockfd := 3, privex_epollfd := 4\<rparr>)
     = None"
proof -
  let ?ws = "init_world sluggish_kernel silent_peer [] EndOfFile"
  let ?wt = "(init_world stalled_kernel silent_peer [] EndOfFile)\<lparr>privex_sockfd := 3, privex_epollfd := 4\<rparr>"
  have a: "\<forall>i. answers ?ws WRITE i \<noteq> 0" and b: "\<forall>i\<ge>1. answers ?ws EPOLL_WAIT i \<noteq> 0"
    and c: "answers ?ws EPOLL_WAIT 0 = 0"
    by (simp_all add: init_world_def sluggish_kernel_def)
  have d: "(0::nat) < 1 \<and> 0 \<le> privex_sockfd ?wt \<and> 0 \<le> privex_epollfd ?wt \<and>
    (\<forall>i. 0 < answers ?wt EPOLL_WAIT i) \<and> (\<forall>i. answers ?wt WRITE i = 0)"
    by (simp add: init_world_def stalled_kernel_def friendly_kernel_def)
  have "\<exists>y. tell_privex ''hello'' 5 ?ws = Some y"
    using tell_privex_terminates [of ?ws 1 "''hello''" 5] a b by blast
  moreover have "tell_privex ''a'' 1 ?wt = None"
    using tell_privex_terminates [of ?wt 0 "''a''" 1] d by blast
  moreover have "\<forall>i. answers ?ws EPOLL_WAIT (Suc i) \<noteq> 0"
    by (simp add: init_world_def sluggish_kernel_def)
  ultimately show ?thesis using a c by blast
qed

subsection \<open>Claims C7 and C8: the command line\<close>

lemma of_char_pos: "(0 < (of_char c :: nat)) = (c \<noteq> CHR 0x00)"
proof -
  have "((of_char c :: nat) = of_char (CHR 0x00)) = (c = CHR 0x00)"
    by (rule of_char_eq_iff)
  then show ?thesis by (cases "c = CHR 0x00") auto
qed

lemma strncasecmp_eq_0:
  assumes "length t = n" and "CHR 0x00 \<notin> set (map tolower t)"
  shows "(strncasecmp s t n = 0) = (map tolower (take n s) = map tolower t)"
  using assms
proof (induction n arbitrary: s t)
  case 0
  then show ?case by simp
next
  case (Suc n)
  then obtain c t' where t: "t = c # t'" by (cases t) auto
  with Suc.prems have c: "tolower c \<noteq> CHR 0x00" and t': "length t' = n" "CHR 0x00 \<notin> set (map tolower t')"
    by auto
  show ?case
  proof (cases s)
    case Nil
    with t c show ?thesis by (auto simp: Let_def of_char_pos)
  next
    case (Cons a s')
    with t c Suc.IH [OF t', of s'] show ?thesis by (auto simp: Let_def)
  qed
qed


lemma strncasecmp_dump: "(strncasecmp s ''dump'' 4 = 0) = (map tolower (take 4 s) = ''dump'')"
  using strncasecmp_eq_0 [of "''dump''" 4 s] by (simp add: tolower_def)

lemma strncasecmp_load: "(strncasecmp s ''load'' 4 = 0) = (map tolower (take 4 s) = ''load'')"
  using strncasecmp_eq_0 [of "''load''" 4 s] by (simp add: tolower_def)


text \<open>
  Claim C7 as stated: a mode token that is neither \<^verbatim>\<open>dump\<close> nor \<^verbatim>\<open>load\<close> gives the
  usage message and a status other than zero. It fails: the token \<^verbatim>\<open>LOADED\<close> selects
  the load mode, which on an empty input returns status \<open>0\<close> and prints nothing.
\<close>

theorem main_mode_token_counterexample:
  "map_option (\<lambda>(r, w'). (r, trace w'))
     (main 3 [''privexctl'', ''LOADED'', ''80'']
        (init_world friendly_kernel silent_peer [] EndOfFile))
   = Some (Exit 0, [])"
  by code_simp

text \<open>
  Claim C7, amended. \<^verbatim>\<open>main\<close> compares the first four characters of the mode token
  with \<^verbatim>\<open>dump\<close> and \<^verbatim>\<open>load\<close>, ignoring case. When the argument count is not 3, or
  these four characters are neither of the two words, it prints the usage message and
  returns \<^verbatim>\<open>EXIT_FAILURE\<close>, which is not zero, and makes no other call. When the count
  is 3 and the four characters are one of the two words, that mode runs.
\<close>

theorem main_usage_error:
  assumes "argc = int (length argv)"
  shows "EXIT_FAILURE \<noteq> 0 \<and>
     (argc \<noteq> 3 \<or> (map tolower (take 4 (argv ! 1)) \<noteq> ''dump'' \<and>
                    map tolower (take 4 (argv ! 1)) \<noteq> ''load'') \<longrightarrow>
        main argc argv w =
          Some (Exit EXIT_FAILURE, w\<lparr>trace := trace w @ [EvStderr (usage argv)]\<rparr>)) \<and>
     (argc = 3 \<and> map tolower (take 4 (argv ! 1)) = ''dump'' \<longrightarrow>
        main argc argv w = dump (atoi (argv ! 2)) w) \<and>
     (argc = 3 \<and> map tolower (take 4 (argv ! 1)) = ''load'' \<longrightarrow>
        main argc argv w =
          map_option (\<lambda>(r, w'). (Exit r, w')) (load (atoi (argv ! 2)) w))"
  by (auto simp: main_def strncasecmp_dump strncasecmp_load fprintf_stderr_def emit_def
      EXIT_FAILURE_def)

theorem main_usage_error_witness:
  "main 3 [''privexctl'', ''stop'', ''9000''] (init_world friendly_kernel silent_peer [] EndOfFile) =
     Some (Exit EXIT_FAILURE,
       (init_world friendly_kernel silent_peer [] EndOfFile)
         \<lparr>trace := [EvStderr (usage [''privexctl'', ''stop'', ''9000''])]\<rparr>) \<and>
   main 2 [''privexctl'', ''dump''] (init_world friendly_kernel silent_peer [] EndOfFile) =
     Some (Exit EXIT_FAILURE,
       (init_world friendly_kernel silent_peer [] EndOfFile)
         \<lparr>trace := [EvStderr (usage [''privexctl'', ''dump''])]\<rparr>) \<and>
   main 3 [''privexctl'', ''Dumping'', ''9000''] (init_world friendly_kernel silent_peer [] EndOfFile) =
     dump 9000 (init_world friendly_kernel silent_peer [] EndOfFile)"
proof -
  let ?w = "init_world friendly_kernel silent_peer [] EndOfFile"
  have t: "trace ?w = []" by (simp add: init_world_def)
  have a: "atoi ''9000'' = 9000"
    by (simp add: atoi_def strtol_def written_number_def sign_and_digits_def isspace_def
        isdigit_def LONG_MAX_def LONG_MIN_def int_cast_def)
  have "main 3 [''privexctl'', ''stop'', ''9000''] ?w =
     Some (Exit EXIT_FAILURE, ?w\<lparr>trace := [EvStderr (usage [''privexctl'', ''stop'', ''9000''])]\<rparr>)"
    using main_usage_error [of 3 "[''privexctl'', ''stop'', ''9000'']" ?w] t
    by (simp add: tolower_def)
  moreover have "main 2 [''privexctl'', ''dump''] ?w =
     Some (Exit EXIT_FAILURE, ?w\<lparr>trace := [EvStderr (usage [''privexctl'', ''dump''])]\<rparr>)"
    using main_usage_error [of 2 "[''privexctl'', ''dump'']" ?w] t
    by simp
  moreover have "map tolower (take 4 ''Dumping'') = ''dump''"
    by code_simp
  then have "main 3 [''privexctl'', ''Dumping'', ''9000''] ?w = dump 9000 ?w"
    using main_usage_error [of 3 "[''privexctl'', ''Dumping'', ''9000'']" ?w] a
    by simp
  ultimately show ?thesis by simp
qed










lemma setup_privex_server_ports:
  "\<exists>evs. trace (snd (setup_privex_server w)) = trace w @ evs \<and>
         list_all (port_on_wire (htons (uint16_cast (privex_port w)))) evs"
  by (simp add: setup_privex_server_def Let_def split_beta sys_defs)












subsection \<open>Claim C3: the dump loop waits before any handle exists\<close>

lemma dump_fails_without_handle:
  assumes "privex_epollfd w < 0"
  shows "\<exists>w'. dump port w = Some (Exit EXIT_FAILURE, w') \<and>
           trace w' = trace w @ [EvEpollWait (privex_epollfd w),
                                 EvStderr ''Privex Error : error in client epoll_wait: %s''] \<and>
           privex_sockfd w' = privex_sockfd w \<and> privex_epollfd w' = privex_epollfd w"
  using assms
  by (subst dump_def, subst dump_loop.simps)
     (simp add: sys_epoll_wait_def Let_def fprintf_stderr_def emit_def consume_def)

text \<open>
  Claim C3 says that the first iteration of the dump loop sets the server up. On the code,
  \<^verbatim>\<open>dump\<close> calls \<^verbatim>\<open>epoll_wait\<close> on the readiness handle before it calls
  \<^verbatim>\<open>echo_data\<close>; in a fresh process that handle is \<open>-1\<close>, the wait fails, and \<^verbatim>\<open>dump\<close>
  returns \<^verbatim>\<open>EXIT_FAILURE\<close> without a call to \<^verbatim>\<open>socket\<close>, \<^verbatim>\<open>bind\<close> or \<^verbatim>\<open>listen\<close>,
  even on an operating system where each of them would succeed.
\<close>

theorem dump_fails_before_setup:
  "map_option (\<lambda>(r, w'). (r, trace w', privex_sockfd w', privex_epollfd w'))
     (main 3 [''privexctl'', ''dump'', ''80'']
        (init_world friendly_kernel hello_peer [] EndOfFile))
   = Some (Exit EXIT_FAILURE,
           [EvEpollWait (- 1), EvStderr ''Privex Error : error in client epoll_wait: %s''],
           - 1, - 1)"
  by code_simp

subsection \<open>Claims C4 and C5: what \<^verbatim>\<open>echo_data\<close> returns\<close>

lemma echo_data_body_result:
  "fst (echo_data_body w) = Some EXIT_FAILURE \<or> fst (echo_data_body w) = None"
proof -
  obtain n bs w1 where rd: "sys_read (privex_sockfd w) 8192 w = (n, bs, w1)"
    by (cases "sys_read (privex_sockfd w) 8192 w")
  obtain m w2 where fw: "fwrite_stdout bs (nat n) 1 w1 = (m, w2)"
    by (cases "fwrite_stdout bs (nat n) 1 w1")
  show ?thesis
    by (simp add: echo_data_body_def Let_def rd fw [unfolded One_nat_def])
qed

lemma echo_data_never_reports_success:
  "fst (echo_data w) \<noteq> Some EXIT_SUCCESS"
  using echo_data_body_result [of w] echo_data_body_result [of "snd (setup_privex_server w)"]
  by (auto simp: echo_data_def split_beta EXIT_SUCCESS_def EXIT_FAILURE_def)

lemma fwrite_stdout_one_item:
  assumes "fwrite_stdout ptr sz 1 w = (m, w1)"
  shows "m \<le> 1"
proof -
  have "min a sz div sz \<le> 1" for a :: nat
  proof -
    have "min a sz div sz \<le> sz div sz"
      by (rule div_le_mono) simp
    then show ?thesis by (cases "sz = 0") simp_all
  qed
  with assms show ?thesis
    by (auto simp: fwrite_stdout_def Let_def split: if_splits)
qed

lemma echo_data_body_fails_on_two_bytes:
  assumes "sys_read (privex_sockfd w) 8192 w = (n, bs, w1)" and "2 \<le> n"
  shows "fst (echo_data_body w) = Some EXIT_FAILURE"
proof -
  obtain m w2 where fw: "fwrite_stdout bs (nat n) 1 w1 = (m, w2)"
    by (cases "fwrite_stdout bs (nat n) 1 w1")
  from fwrite_stdout_one_item [OF fw] assms(2) have "n \<noteq> int m"
    by simp
  with assms show ?thesis
    by (simp add: echo_data_body_def Let_def fw [unfolded One_nat_def])
qed

text \<open>
  Claim C4 says that a read of \<open>n > 0\<close> bytes which standard output accepts in full is
  not an error. On the code, \<^verbatim>\<open>fwrite\<close> is called with item size \<^verbatim>\<open>numRead\<close> and
  item count \<open>1\<close>, so it returns \<open>1\<close> when everything was written, and the comparison
  with \<^verbatim>\<open>numRead\<close> fails for every read of two bytes or more: here six bytes are read,
  standard output takes all six, and \<^verbatim>\<open>echo_data\<close> still reports the write as failed,
  closes both descriptors and returns \<^verbatim>\<open>EXIT_FAILURE\<close>.
\<close>

theorem echo_data_fails_on_complete_write:
  "(\<lambda>(r, w'). (r, trace w', privex_sockfd w', privex_epollfd w'))
     (echo_data ((init_world friendly_kernel hello_peer [] EndOfFile)
                   \<lparr>privex_sockfd := 3, privex_epollfd := 4\<rparr>))
   = (Some EXIT_FAILURE,
      [EvRead 3, EvStdout ''hello!'',
       EvStderr ''Privex Error : Could not write to stdout: %s'', EvClose 3, EvClose 4],
      - 1, - 1)"
  by code_simp

text \<open>
  Claim C5 says that after a read of \<open>0\<close> bytes \<^verbatim>\<open>echo_data\<close> reports success and the
  dump loop goes on. On the code, nothing is forwarded and the handle stays valid, but
  control reaches the end of \<^verbatim>\<open>echo_data\<close> without a \<^verbatim>\<open>return\<close> statement: no value
  is returned, and the dump loop compares an undefined value with \<^verbatim>\<open>EXIT_SUCCESS\<close>.
\<close>

theorem echo_data_returns_nothing_on_empty_read:
  "(\<lambda>(r, w'). (r, trace w', privex_sockfd w', privex_epollfd w'))
     (echo_data ((init_world friendly_kernel silent_peer [] EndOfFile)
                   \<lparr>privex_sockfd := 3, privex_epollfd := 4\<rparr>))
   = (None, [EvRead 3], 3, 4) \<and>
   map_option (\<lambda>(r, w'). (r, trace w'))
     (dump_loop ((init_world friendly_kernel silent_peer [] EndOfFile)
                   \<lparr>privex_sockfd := 3, privex_epollfd := 4\<rparr>))
   = Some (Undefined, [EvEpollWait 4, EvRead 3])"
  by code_simp

end
